theory Spec2Isabelle
  imports Complex_Main "HOL-Library.AList" "HOL-Library.Log_Nat"
begin

section \<open>CanvasUIMark: input routing, focus and widget state\<close>

text \<open>
  A shallow embedding of \<^verbatim>\<open>canvasUImark.js\<close>: the coordinator class
  \<^verbatim>\<open>CanvasUIMark\<close> (control list, focus index, modal stack, input dispatch), the
  control classes (\<^verbatim>\<open>Button\<close>, \<^verbatim>\<open>Menu\<close>, \<^verbatim>\<open>Toggle\<close>,
  \<^verbatim>\<open>TextInput\<close>, \<^verbatim>\<open>Radio\<close>, \<^verbatim>\<open>Slider\<close>, \<^verbatim>\<open>Panel\<close>) and
  \<^verbatim>\<open>Modal\<close>.

  Conventions of the embedding.
  \<^item> The numbers of a \<^verbatim>\<open>Slider\<close> (\<^verbatim>\<open>min\<close>, \<^verbatim>\<open>max\<close>, \<^verbatim>\<open>value\<close>, \<^verbatim>\<open>step\<close>) and all numbers
    computed from them are IEEE 754 binary64 values (type \<open>num\<close>): every operation
    rounds to nearest, ties to even, and the infinities, the negative zero and
    \<^verbatim>\<open>NaN\<close> are values like any other. Coordinates and sizes are rationals
    (\<^typ>\<open>rat\<close>); where the \<^verbatim>\<open>Slider\<close> computes with them they are read as the binary64
    numbers they denote. Indices and cursor positions, which the source only ever
    steps by one, are \<^typ>\<open>int\<close>; where \<^verbatim>\<open>Menu\<close> or \<^verbatim>\<open>Radio\<close> would compute \<^verbatim>\<open>NaN\<close> or an
    infinity as an index (a division or a remainder by zero) the model returns the
    outcome \<open>NonFinite\<close> instead of a number.
  \<^item> A property read of \<^verbatim>\<open>undefined\<close> (\<^verbatim>\<open>items[i].callback\<close> with \<open>i\<close> out of
    range) throws in JavaScript; the model returns the outcome \<open>TypeError\<close>.
  \<^item> Objects are addressed by references (\<^typ>\<open>nat\<close>); \<^verbatim>\<open>indexOf\<close> compares
    references, as \<^verbatim>\<open>===\<close> on objects does.
  \<^item> Callbacks supplied by the application are opaque: a callback is a name, and calling
    it appends one entry to a trace. What the application does inside a callback
    (calling back into the coordinator, throwing) is not modelled. The only callback
    the library creates itself, the closure \<^verbatim>\<open>() => this.close()\<close> of the default OK
    action, is executed.
  \<^item> There is one coordinator: the \<^verbatim>\<open>manager\<close> of every modal is that coordinator, as
    \<^verbatim>\<open>showModal\<close> sets it.
  \<^item> Drawing, \<^verbatim>\<open>preventDefault\<close> and the animation loop are outside the embedding.
\<close>

subsection \<open>JavaScript numbers\<close>

text \<open>
  A JavaScript number is an IEEE 754 binary64 value: a finite number, one of the two
  zeros, an infinity, or \<^verbatim>\<open>NaN\<close>. \<open>Fin q\<close> is the finite value \<open>q\<close>, with \<open>Fin 0\<close> for
  \<open>+0\<close>; the values of the type that stand for a number are those \<open>Fin q\<close> in which \<open>q\<close>
  is representable (\<open>binary64\<close> below).
\<close>

datatype num = Fin rat | NegZero | PosInf | NegInf | NaN

text \<open>
  \<open>ilog2 q\<close> is the integer part of the binary logarithm of \<open>q > 0\<close>, computed from
  the bit lengths of numerator and denominator. \<open>expo q\<close> is the exponent of the last
  bit of the significand of the binary64 numbers next to \<open>q\<close>: 53 bits of precision,
  and \<open>2 powi (- 1074)\<close> as the spacing of the subnormal numbers.
\<close>

definition ilog2 :: "rat \<Rightarrow> int" where
  "ilog2 q = (case quotient_of q of (a, b) \<Rightarrow>
     (let k = bitlen a - bitlen b in if 2 powi k \<le> q then k else k - 1))"

definition expo :: "rat \<Rightarrow> int" where
  "expo q = max (ilog2 \<bar>q\<bar> - 52) (- 1074)"

text \<open>Rounding to the nearest integer, a tie to the even one.\<close>

definition round_half_even :: "rat \<Rightarrow> int" where
  "round_half_even x =
     (let f = \<lfloor>x\<rfloor>; r = x - of_int f
      in if r < 1 / 2 then f else if r > 1 / 2 then f + 1 else if even f then f else f + 1)"

text \<open>
  \<open>round64 q\<close> rounds \<open>q\<close> to the nearest number with a 53 bit significand and an
  exponent unbounded above (roundTiesToEven); \<open>max_double\<close> is the largest finite
  binary64 number, \<open>(2 ^ 53 - 1) * 2 ^ 971\<close>. A rational is representable when rounding
  leaves it unchanged and it does not exceed \<open>max_double\<close> in magnitude.
\<close>

definition round64 :: "rat \<Rightarrow> rat" where
  "round64 q =
     (if q = 0 then 0 else of_int (round_half_even (q / 2 powi expo q)) * 2 powi expo q)"

definition max_double :: rat where
  "max_double = (2 ^ 53 - 1) * 2 ^ 971"

definition is_double :: "rat \<Rightarrow> bool" where
  "is_double q \<longleftrightarrow> round64 q = q \<and> \<bar>q\<bar> \<le> max_double"

definition binary64 :: "num \<Rightarrow> bool" where
  "binary64 a = (case a of Fin q \<Rightarrow> is_double q | _ \<Rightarrow> True)"

definition signed_zero :: "bool \<Rightarrow> num" where
  "signed_zero neg = (if neg then NegZero else Fin 0)"

definition signed_inf :: "bool \<Rightarrow> num" where
  "signed_inf neg = (if neg then NegInf else PosInf)"

text \<open>
  The binary64 result of an operation whose exact result is \<open>q\<close>: \<open>q\<close> rounded, an
  infinity when the rounded value exceeds \<open>max_double\<close>, and a zero with the sign
  \<open>neg\<close> when it rounds to zero.
\<close>

definition fl :: "bool \<Rightarrow> rat \<Rightarrow> num" where
  "fl neg q =
     (let r = round64 q
      in if r = 0 then signed_zero neg
         else if max_double < \<bar>r\<bar> then signed_inf (r < 0)
         else Fin r)"

text \<open>The number a rational coordinate stands for: itself when it is representable.\<close>

definition number :: "rat \<Rightarrow> num" where
  "number q = fl (q < 0) q"

fun is_nan :: "num \<Rightarrow> bool" where
  "is_nan NaN = True"
| "is_nan _ = False"

fun is_inf :: "num \<Rightarrow> bool" where
  "is_inf PosInf = True"
| "is_inf NegInf = True"
| "is_inf _ = False"

fun is_finite :: "num \<Rightarrow> bool" where
  "is_finite (Fin q) = True"
| "is_finite NegZero = True"
| "is_finite _ = False"

fun is_zero :: "num \<Rightarrow> bool" where
  "is_zero (Fin q) = (q = 0)"
| "is_zero NegZero = True"
| "is_zero _ = False"

text \<open>The sign bit, and the value of a finite number.\<close>

fun is_neg :: "num \<Rightarrow> bool" where
  "is_neg (Fin q) = (q < 0)"
| "is_neg NegZero = True"
| "is_neg NegInf = True"
| "is_neg _ = False"

fun val :: "num \<Rightarrow> rat" where
  "val (Fin q) = q"
| "val _ = 0"

text \<open>
  \<^verbatim>\<open>a < b\<close>, \<^verbatim>\<open>a <= b\<close> and \<^verbatim>\<open>a === b\<close> on numbers: false when an operand is \<^verbatim>\<open>NaN\<close>, and
  the two zeros are equal.
\<close>

definition js_lt :: "num \<Rightarrow> num \<Rightarrow> bool" where
  "js_lt a b \<longleftrightarrow>
     (if is_nan a \<or> is_nan b then False
      else if is_finite a \<and> is_finite b then val a < val b
      else (a = NegInf \<and> b \<noteq> NegInf) \<or> (b = PosInf \<and> a \<noteq> PosInf))"

definition js_le :: "num \<Rightarrow> num \<Rightarrow> bool" where
  "js_le a b \<longleftrightarrow>
     (if is_nan a \<or> is_nan b then False
      else if is_finite a \<and> is_finite b then val a \<le> val b
      else a = NegInf \<or> b = PosInf)"

definition js_strict_eq :: "num \<Rightarrow> num \<Rightarrow> bool" where
  "js_strict_eq a b \<longleftrightarrow>
     (if is_nan a \<or> is_nan b then False
      else if is_finite a \<and> is_finite b then val a = val b
      else a = b)"

text \<open>
  \<^verbatim>\<open>-a\<close>, \<^verbatim>\<open>a + b\<close>, \<^verbatim>\<open>a - b\<close>, \<^verbatim>\<open>a * b\<close>, \<^verbatim>\<open>a / b\<close>: the exact result rounded, with the
  special cases of IEEE 754 (\<open>\<infinity> - \<infinity>\<close>, \<open>0 * \<infinity>\<close>, \<open>0 / 0\<close> and \<open>\<infinity> / \<infinity>\<close> are \<^verbatim>\<open>NaN\<close>;
  a non-zero number divided by a zero is an infinity). A sum that is exactly zero
  is \<open>-0\<close> only when both operands are negative zeros; a product or quotient has the
  sign of its operands also when it is zero.
\<close>

definition js_neg :: "num \<Rightarrow> num" where
  "js_neg a =
     (case a of Fin q \<Rightarrow> (if q = 0 then NegZero else Fin (- q)) | NegZero \<Rightarrow> Fin 0
      | PosInf \<Rightarrow> NegInf | NegInf \<Rightarrow> PosInf | NaN \<Rightarrow> NaN)"

definition js_add :: "num \<Rightarrow> num \<Rightarrow> num" where
  "js_add a b =
     (if is_nan a \<or> is_nan b then NaN
      else if is_inf a then (if is_inf b \<and> a \<noteq> b then NaN else a)
      else if is_inf b then b
      else fl (is_neg a \<and> is_neg b) (val a + val b))"

definition js_sub :: "num \<Rightarrow> num \<Rightarrow> num" where
  "js_sub a b = js_add a (js_neg b)"

definition js_mul :: "num \<Rightarrow> num \<Rightarrow> num" where
  "js_mul a b =
     (if is_nan a \<or> is_nan b then NaN
      else if (is_inf a \<and> is_zero b) \<or> (is_zero a \<and> is_inf b) then NaN
      else if is_inf a \<or> is_inf b then signed_inf (is_neg a \<noteq> is_neg b)
      else fl (is_neg a \<noteq> is_neg b) (val a * val b))"

definition js_div :: "num \<Rightarrow> num \<Rightarrow> num" where
  "js_div a b =
     (if is_nan a \<or> is_nan b then NaN
      else if (is_inf a \<and> is_inf b) \<or> (is_zero a \<and> is_zero b) then NaN
      else if is_inf a \<or> is_zero b then signed_inf (is_neg a \<noteq> is_neg b)
      else if is_inf b then signed_zero (is_neg a \<noteq> is_neg b)
      else fl (is_neg a \<noteq> is_neg b) (val a / val b))"

text \<open>
  \<^verbatim>\<open>a % b\<close> on numbers: \<^verbatim>\<open>NaN\<close> for an infinite dividend or a zero divisor, the dividend
  for an infinite divisor, and otherwise the remainder of the truncating division,
  which is exact and has the sign of the dividend.
\<close>

definition js_mod :: "num \<Rightarrow> num \<Rightarrow> num" where
  "js_mod a b =
     (if is_nan a \<or> is_nan b \<or> is_inf a \<or> is_zero b then NaN
      else if is_inf b \<or> is_zero a then a
      else (let t = val a / val b;
                r = val a - val b * of_int (if 0 \<le> t then \<lfloor>t\<rfloor> else \<lceil>t\<rceil>)
            in if r = 0 then signed_zero (is_neg a) else Fin r))"

text \<open>
  \<^verbatim>\<open>Math.max(a, b)\<close> and \<^verbatim>\<open>Math.min(a, b)\<close>: \<^verbatim>\<open>NaN\<close> when an argument is \<^verbatim>\<open>NaN\<close>, and \<open>+0\<close>
  counts as larger than \<open>-0\<close>.
\<close>

definition js_max :: "num \<Rightarrow> num \<Rightarrow> num" where
  "js_max a b =
     (if is_nan a \<or> is_nan b then NaN
      else if js_lt a b then b
      else if is_zero a \<and> is_zero b \<and> \<not> is_neg b then b
      else a)"

definition js_min :: "num \<Rightarrow> num \<Rightarrow> num" where
  "js_min a b =
     (if is_nan a \<or> is_nan b then NaN
      else if js_lt b a then b
      else if is_zero a \<and> is_zero b \<and> is_neg b then b
      else a)"

text \<open>
  \<^verbatim>\<open>Math.round(a)\<close>: the nearest integer, a tie towards \<open>+\<infinity>\<close>, that is \<open>\<lfloor>a + 1/2\<rfloor>\<close>
  computed exactly (the result is representable whenever \<open>a\<close> is); \<open>-0\<close> for
  \<open>-1/2 \<le> a < 0\<close>; an infinity, a zero and \<^verbatim>\<open>NaN\<close> are returned as they are.
\<close>

definition js_round :: "num \<Rightarrow> num" where
  "js_round a =
     (case a of
        Fin q \<Rightarrow> (let r = \<lfloor>q + 1 / 2\<rfloor> in if r = 0 \<and> q < 0 then NegZero else Fin (of_int r))
      | _ \<Rightarrow> a)"

subsection \<open>JavaScript primitives\<close>

datatype error = TypeError | NonFinite

datatype jsval = JNum num | JBool bool | JStr string | JUndefined

text \<open>A call of an application callback: the callback's name and its arguments.\<close>

type_synonym call = "nat \<times> jsval list"

text \<open>The fields of a \<^verbatim>\<open>KeyboardEvent\<close> that the source reads.\<close>

record key_event =
  key :: string
  shiftKey :: bool
  ctrlKey :: bool
  metaKey :: bool

text \<open>
  \<^verbatim>\<open>a % n\<close> on integers with \<open>n \<noteq> 0\<close>: the remainder of the truncating division, with
  the sign of the dividend.
\<close>

definition js_rem :: "int \<Rightarrow> int \<Rightarrow> int" where
  "js_rem a n = sgn a * (\<bar>a\<bar> mod \<bar>n\<bar>)"

text \<open>\<^verbatim>\<open>xs.indexOf(v)\<close>: the first position of \<open>v\<close>, or \<open>-1\<close>.\<close>

fun indexOf :: "'a list \<Rightarrow> 'a \<Rightarrow> int" where
  "indexOf [] v = -1"
| "indexOf (x # xs) v =
     (if x = v then 0 else (let i = indexOf xs v in if i = -1 then -1 else i + 1))"

text \<open>\<^verbatim>\<open>xs.splice(i, 1)\<close> for \<open>0 \<le> i\<close>: removes the element at position \<open>i\<close>, if any.\<close>

definition splice1 :: "'a list \<Rightarrow> int \<Rightarrow> 'a list" where
  "splice1 xs i = take (nat i) xs @ drop (nat i + 1) xs"

text \<open>
  \<^verbatim>\<open>s.slice(start, end)\<close> and \<^verbatim>\<open>s.slice(start)\<close>: a negative index counts from the end,
  and both indices are clamped into \<open>[0, length]\<close>.
\<close>

definition js_slice :: "'a list \<Rightarrow> int \<Rightarrow> int \<Rightarrow> 'a list" where
  "js_slice s start end =
     (let len = int (length s);
          from = (if start < 0 then max (len + start) 0 else min start len);
          to = (if end < 0 then max (len + end) 0 else min end len)
      in if from < to then take (nat (to - from)) (drop (nat from) s) else [])"

definition js_slice_from :: "'a list \<Rightarrow> int \<Rightarrow> 'a list" where
  "js_slice_from s start = js_slice s start (int (length s))"

text \<open>
  \<^verbatim>\<open>label.toLowerCase()\<close> on the letters \<open>A\<close> to \<open>Z\<close>. No character outside this range
  lower-cases to a letter of \<open>exit\<close>, \<open>close\<close> or \<open>cancel\<close>, the only strings the source
  compares a lower-cased label with.
\<close>

definition lower_char :: "char \<Rightarrow> char" where
  "lower_char c =
     (if (65::nat) \<le> of_char c \<and> of_char c \<le> (90::nat) then char_of (of_char c + (32::nat)) else c)"

definition toLowerCase :: "string \<Rightarrow> string" where
  "toLowerCase s = map lower_char s"

subsection \<open>Control: geometry and hit test\<close>

text \<open>
  \<open>padding\<close> is \<^verbatim>\<open>options.padding\<close>, the one style option that input handling reads.
  \<open>manager\<close> is the back-reference set by \<^verbatim>\<open>addControl\<close>: \<open>False\<close> for \<^verbatim>\<open>null\<close>,
  \<open>True\<close> for the coordinator.
\<close>

record control_base =
  x :: rat
  y :: rat
  width :: rat
  height :: rat
  padding :: rat
  manager :: bool

definition containsPoint :: "'a control_base_scheme \<Rightarrow> rat \<Rightarrow> rat \<Rightarrow> bool" where
  "containsPoint c px py \<longleftrightarrow>
     px \<ge> x c \<and> px \<le> x c + width c \<and> py \<ge> y c \<and> py \<le> y c + height c"

subsection \<open>Slider\<close>

record slider = control_base +
  min_val :: num
  max_val :: num
  "value" :: num
  step :: num
  label :: string
  callback :: "nat option"
  dragging :: bool

text \<open>\<^verbatim>\<open>if (this.callback) this.callback(this.value)\<close>.\<close>

definition slider_notify :: "slider \<Rightarrow> call list" where
  "slider_notify s = (case slider.callback s of None \<Rightarrow> [] | Some f \<Rightarrow> [(f, [JNum (slider.value s)])])"

definition slider_handleKeyDown :: "slider \<Rightarrow> key_event \<Rightarrow> slider \<times> call list" where
  "slider_handleKeyDown s e =
     (if key e = ''ArrowLeft'' then
        (let s' = s\<lparr>slider.value := js_max (min_val s) (js_sub (slider.value s) (step s))\<rparr>
         in (s', slider_notify s'))
      else if key e = ''ArrowRight'' then
        (let s' = s\<lparr>slider.value := js_min (max_val s) (js_add (slider.value s) (step s))\<rparr>
         in (s', slider_notify s'))
      else (s, []))"

definition slider_handleGamepadAxis :: "slider \<Rightarrow> int \<Rightarrow> slider \<times> call list" where
  "slider_handleGamepadAxis s direction =
     (let s' = (if direction < 0
                then s\<lparr>slider.value := js_max (min_val s) (js_sub (slider.value s) (step s))\<rparr>
                else s\<lparr>slider.value := js_min (max_val s) (js_add (slider.value s) (step s))\<rparr>)
      in (s', slider_notify s'))"

text \<open>
  \<^verbatim>\<open>percent = Math.max(0, Math.min(1, (x - sliderX) / sliderWidth))\<close> with
  \<^verbatim>\<open>sliderX = this.x + this.options.padding\<close> and
  \<^verbatim>\<open>sliderWidth = this.width - this.options.padding * 2\<close>. With a track of width zero
  the quotient is an infinity or \<^verbatim>\<open>NaN\<close>, which the clamps turn into \<open>1\<close>, \<open>0\<close> or
  \<^verbatim>\<open>NaN\<close>.
\<close>

definition slider_percent :: "slider \<Rightarrow> rat \<Rightarrow> num" where
  "slider_percent s px =
     (let sliderX = js_add (number (control_base.x s)) (number (padding s));
          sliderWidth = js_sub (number (control_base.width s)) (js_mul (number (padding s)) (Fin 2))
      in js_max (Fin 0) (js_min (Fin 1) (js_div (js_sub (number px) sliderX) sliderWidth)))"

text \<open>
  \<^verbatim>\<open>updateValueFromX(x)\<close>. Every intermediate result is a number, \<^verbatim>\<open>NaN\<close> included: with
  a step of zero, or a track of width zero clicked at its start, \<^verbatim>\<open>newValue\<close> is
  \<^verbatim>\<open>NaN\<close>, which \<^verbatim>\<open>!==\<close> finds different from every value, so that it is stored and
  passed to the callback.
\<close>

definition slider_updateValueFromX :: "slider \<Rightarrow> rat \<Rightarrow> slider \<times> call list" where
  "slider_updateValueFromX s px =
     (let percent = slider_percent s px;
          newValue = js_add (min_val s) (js_mul percent (js_sub (max_val s) (min_val s)));
          newValue = js_mul (js_round (js_div newValue (step s))) (step s);
          newValue = js_max (min_val s) (js_min (max_val s) newValue)
      in if \<not> js_strict_eq newValue (slider.value s)
         then (let s' = s\<lparr>slider.value := newValue\<rparr> in (s', slider_notify s'))
         else (s, []))"

definition slider_handleClick :: "slider \<Rightarrow> rat \<Rightarrow> rat \<Rightarrow> slider \<times> call list" where
  "slider_handleClick s px py = slider_updateValueFromX s px"

subsection \<open>Button, Toggle\<close>

record button = control_base +
  label :: string
  callback :: "nat option"
  pressed :: bool
  pressedTime :: rat
  pressedDuration :: rat

definition button_activate :: "button \<Rightarrow> button \<times> call list" where
  "button_activate b =
     (b\<lparr>button.pressed := True, button.pressedTime := 0\<rparr>,
      case button.callback b of None \<Rightarrow> [] | Some f \<Rightarrow> [(f, [])])"

definition button_handleClick :: "button \<Rightarrow> rat \<Rightarrow> rat \<Rightarrow> button \<times> call list" where
  "button_handleClick b px py = button_activate b"

definition button_handleKeyDown :: "button \<Rightarrow> key_event \<Rightarrow> button \<times> call list" where
  "button_handleKeyDown b e =
     (if key e = ''Enter'' \<or> key e = '' '' then button_activate b else (b, []))"

record toggle = control_base +
  label :: string
  "value" :: bool
  callback :: "nat option"

definition toggle_toggle :: "toggle \<Rightarrow> toggle \<times> call list" where
  "toggle_toggle t =
     (let t' = t\<lparr>toggle.value := \<not> toggle.value t\<rparr>
      in (t', case toggle.callback t' of None \<Rightarrow> [] | Some f \<Rightarrow> [(f, [JBool (toggle.value t')])]))"

definition toggle_handleClick :: "toggle \<Rightarrow> rat \<Rightarrow> rat \<Rightarrow> toggle \<times> call list" where
  "toggle_handleClick t px py = toggle_toggle t"

definition toggle_handleKeyDown :: "toggle \<Rightarrow> key_event \<Rightarrow> toggle \<times> call list" where
  "toggle_handleKeyDown t e =
     (if key e = ''Enter'' \<or> key e = '' '' then toggle_toggle t else (t, []))"

definition toggle_activate :: "toggle \<Rightarrow> toggle \<times> call list" where
  "toggle_activate t = toggle_toggle t"

subsection \<open>TextInput\<close>

text \<open>
  \<open>value\<close> is a JavaScript string, a sequence of code units; \<^verbatim>\<open>value.length\<close> is the
  length of the list.
\<close>

record text_input = control_base +
  placeholder :: string
  "value" :: string
  cursorPos :: int
  cursorVisible :: bool
  cursorBlinkTime :: rat

definition TextInput_new :: "rat \<Rightarrow> rat \<Rightarrow> rat \<Rightarrow> rat \<Rightarrow> string \<Rightarrow> rat \<Rightarrow> text_input" where
  "TextInput_new px py w h ph pad =
     \<lparr>x = px, y = py, width = w, height = h, padding = pad, manager = False,
      placeholder = ph, text_input.value = [], cursorPos = 0, cursorVisible = True,
      cursorBlinkTime = 0\<rparr>"

definition textinput_handleClick :: "text_input \<Rightarrow> rat \<Rightarrow> rat \<Rightarrow> text_input" where
  "textinput_handleClick t px py = t\<lparr>cursorPos := int (length (text_input.value t))\<rparr>"

definition textinput_handleKeyDown :: "text_input \<Rightarrow> key_event \<Rightarrow> text_input" where
  "textinput_handleKeyDown t e =
     (let v = text_input.value t; c = cursorPos t;
          t' =
            (if key e = ''Backspace'' then
               (if c > 0
                then t\<lparr>text_input.value := js_slice v 0 (c - 1) @ js_slice_from v c,
                       cursorPos := c - 1\<rparr>
                else t)
             else if key e = ''Delete'' then
               (if c < int (length v)
                then t\<lparr>text_input.value := js_slice v 0 c @ js_slice_from v (c + 1)\<rparr>
                else t)
             else if key e = ''ArrowLeft'' then t\<lparr>cursorPos := max 0 (c - 1)\<rparr>
             else if key e = ''ArrowRight'' then t\<lparr>cursorPos := min (int (length v)) (c + 1)\<rparr>
             else if key e = ''Home'' then t\<lparr>cursorPos := 0\<rparr>
             else if key e = ''End'' then t\<lparr>cursorPos := int (length v)\<rparr>
             else if length (key e) = 1 \<and> \<not> ctrlKey e \<and> \<not> metaKey e then
               t\<lparr>text_input.value := js_slice v 0 c @ key e @ js_slice_from v c,
                 cursorPos := c + 1\<rparr>
             else t)
      in t'\<lparr>cursorVisible := True, cursorBlinkTime := 0\<rparr>)"

subsection \<open>Menu, Radio\<close>

record menu_item =
  label :: string
  callback :: "nat option"

record menu = control_base +
  itemWidth :: rat
  itemHeight :: rat
  items :: "menu_item list"
  selectedIndex :: int
  orientation :: string
  gap :: rat

text \<open>\<^verbatim>\<open>getItemBounds(index)\<close>: the rectangle \<open>(x, y, width, height)\<close> of an item.\<close>

definition menu_getItemBounds :: "menu \<Rightarrow> nat \<Rightarrow> rat \<times> rat \<times> rat \<times> rat" where
  "menu_getItemBounds m index =
     (if orientation m = ''horizontal''
      then (x m + of_nat index * (itemWidth m + gap m), y m, itemWidth m, menu.itemHeight m)
      else (x m, y m + of_nat index * (menu.itemHeight m + gap m), itemWidth m, menu.itemHeight m))"

text \<open>\<^verbatim>\<open>if (this.items[i].callback) this.items[i].callback()\<close>, for \<open>i\<close> in range.\<close>

definition menu_item_call :: "menu_item \<Rightarrow> call list" where
  "menu_item_call it = (case menu_item.callback it of None \<Rightarrow> [] | Some f \<Rightarrow> [(f, [])])"

definition menu_handleClick :: "menu \<Rightarrow> rat \<Rightarrow> rat \<Rightarrow> menu \<times> call list" where
  "menu_handleClick m px py =
     (case find (\<lambda>i. case menu_getItemBounds m i of (ix, iy, iw, ih) \<Rightarrow>
                    px \<ge> ix \<and> px \<le> ix + iw \<and> py \<ge> iy \<and> py \<le> iy + ih)
             [0..<length (menu.items m)] of
        None \<Rightarrow> (m, [])
      | Some i \<Rightarrow> (m\<lparr>menu.selectedIndex := int i\<rparr>, menu_item_call (menu.items m ! i)))"

text \<open>
  Stepping a selection index: \<^verbatim>\<open>(i - 1 + n) % n\<close> and \<^verbatim>\<open>(i + 1) % n\<close>, which are
  \<^verbatim>\<open>NaN\<close> for an empty item list.
\<close>

definition step_back :: "int \<Rightarrow> nat \<Rightarrow> error + int" where
  "step_back i n = (if n = 0 then Inl NonFinite else Inr (js_rem (i - 1 + int n) (int n)))"

definition step_forth :: "int \<Rightarrow> nat \<Rightarrow> error + int" where
  "step_forth i n = (if n = 0 then Inl NonFinite else Inr (js_rem (i + 1) (int n)))"

text \<open>\<^verbatim>\<open>xs[i]\<close>: \<^verbatim>\<open>undefined\<close> outside the array.\<close>

definition element_at :: "'a list \<Rightarrow> int \<Rightarrow> 'a option" where
  "element_at xs i = (if 0 \<le> i \<and> i < int (length xs) then Some (xs ! nat i) else None)"

definition menu_select :: "menu \<Rightarrow> error + int \<Rightarrow> error + menu \<times> call list" where
  "menu_select m r =
     (case r of Inl err \<Rightarrow> Inl err | Inr i \<Rightarrow> Inr (m\<lparr>menu.selectedIndex := i\<rparr>, []))"

definition menu_activate :: "menu \<Rightarrow> error + menu \<times> call list" where
  "menu_activate m =
     (case element_at (menu.items m) (menu.selectedIndex m) of
        None \<Rightarrow> Inl TypeError
      | Some it \<Rightarrow> Inr (m, menu_item_call it))"

definition menu_handleKeyDown :: "menu \<Rightarrow> key_event \<Rightarrow> error + menu \<times> call list" where
  "menu_handleKeyDown m e =
     (let isVertical = (orientation m = ''vertical'');
          prevKey = (if isVertical then ''ArrowUp'' else ''ArrowLeft'');
          nextKey = (if isVertical then ''ArrowDown'' else ''ArrowRight'');
          n = length (menu.items m)
      in if key e = prevKey \<or> key e = ''ArrowUp'' \<or> key e = ''ArrowLeft'' then
           menu_select m (step_back (menu.selectedIndex m) n)
         else if key e = nextKey \<or> key e = ''ArrowDown'' \<or> key e = ''ArrowRight'' then
           menu_select m (step_forth (menu.selectedIndex m) n)
         else if key e = ''Enter'' \<or> key e = '' '' then menu_activate m
         else Inr (m, []))"

definition menu_handleGamepadLeft :: "menu \<Rightarrow> error + menu \<times> call list" where
  "menu_handleGamepadLeft m =
     menu_select m (step_back (menu.selectedIndex m) (length (menu.items m)))"

definition menu_handleGamepadRight :: "menu \<Rightarrow> error + menu \<times> call list" where
  "menu_handleGamepadRight m =
     menu_select m (step_forth (menu.selectedIndex m) (length (menu.items m)))"

record radio = control_base +
  itemHeight :: rat
  items :: "string list"
  selectedIndex :: int
  callback :: "nat option"

text \<open>
  \<^verbatim>\<open>if (this.callback) this.callback(this.selectedIndex, this.items[this.selectedIndex])\<close>.
\<close>

definition radio_notify :: "radio \<Rightarrow> call list" where
  "radio_notify r =
     (case radio.callback r of
        None \<Rightarrow> []
      | Some f \<Rightarrow>
          [(f, [JNum (Fin (of_int (radio.selectedIndex r))),
                (case element_at (radio.items r) (radio.selectedIndex r) of
                   None \<Rightarrow> JUndefined | Some v \<Rightarrow> JStr v)])])"

text \<open>
  \<^verbatim>\<open>index = Math.floor((y - this.y) / this.itemHeight)\<close>. With an item height of zero
  the index is infinite or \<^verbatim>\<open>NaN\<close> and fails the range test.
\<close>

definition radio_handleClick :: "radio \<Rightarrow> rat \<Rightarrow> rat \<Rightarrow> radio \<times> call list" where
  "radio_handleClick r px py =
     (if radio.itemHeight r = 0 then (r, [])
      else
        (let index = \<lfloor>(py - y r) / radio.itemHeight r\<rfloor>
         in if index \<ge> 0 \<and> index < int (length (radio.items r))
            then (let r' = r\<lparr>radio.selectedIndex := index\<rparr> in (r', radio_notify r'))
            else (r, [])))"

definition radio_select :: "radio \<Rightarrow> error + int \<Rightarrow> error + radio \<times> call list" where
  "radio_select r res =
     (case res of
        Inl err \<Rightarrow> Inl err
      | Inr i \<Rightarrow> (let r' = r\<lparr>radio.selectedIndex := i\<rparr> in Inr (r', radio_notify r')))"

definition radio_handleKeyDown :: "radio \<Rightarrow> key_event \<Rightarrow> error + radio \<times> call list" where
  "radio_handleKeyDown r e =
     (let n = length (radio.items r)
      in if key e = ''ArrowUp'' then radio_select r (step_back (radio.selectedIndex r) n)
         else if key e = ''ArrowDown'' then radio_select r (step_forth (radio.selectedIndex r) n)
         else if key e = ''ArrowLeft'' then radio_select r (step_back (radio.selectedIndex r) n)
         else if key e = ''ArrowRight'' then radio_select r (step_forth (radio.selectedIndex r) n)
         else Inr (r, []))"

definition radio_handleGamepadLeft :: "radio \<Rightarrow> error + radio \<times> call list" where
  "radio_handleGamepadLeft r =
     radio_select r (step_back (radio.selectedIndex r) (length (radio.items r)))"

definition radio_handleGamepadRight :: "radio \<Rightarrow> error + radio \<times> call list" where
  "radio_handleGamepadRight r =
     radio_select r (step_forth (radio.selectedIndex r) (length (radio.items r)))"

subsection \<open>Dynamic dispatch on controls\<close>

text \<open>
  An object of one of the control classes. \<open>PlainControl\<close> is an instance of the base
  class \<^verbatim>\<open>Control\<close> itself. A method the class does not define is \<open>None\<close>, which is
  what the coordinator's tests \<^verbatim>\<open>if (control.handleKeyDown)\<close> observe.
\<close>

datatype control =
    PlainControl control_base
  | Button button
  | Menu menu
  | Toggle toggle
  | TextInput text_input
  | Radio radio
  | Slider slider
  | Panel control_base

definition returned :: "('a \<Rightarrow> control) \<Rightarrow> 'a \<times> call list \<Rightarrow> (error + control \<times> call list) option" where
  "returned C r = Some (Inr (C (fst r), snd r))"

definition returned_or_error ::
  "('a \<Rightarrow> control) \<Rightarrow> error + 'a \<times> call list \<Rightarrow> (error + control \<times> call list) option" where
  "returned_or_error C r =
     Some (case r of Inl err \<Rightarrow> Inl err | Inr (a, calls) \<Rightarrow> Inr (C a, calls))"

fun control_containsPoint :: "control \<Rightarrow> rat \<Rightarrow> rat \<Rightarrow> bool" where
  "control_containsPoint (PlainControl c) px py = containsPoint c px py"
| "control_containsPoint (Button c) px py = containsPoint c px py"
| "control_containsPoint (Menu c) px py = containsPoint c px py"
| "control_containsPoint (Toggle c) px py = containsPoint c px py"
| "control_containsPoint (TextInput c) px py = containsPoint c px py"
| "control_containsPoint (Radio c) px py = containsPoint c px py"
| "control_containsPoint (Slider c) px py = containsPoint c px py"
| "control_containsPoint (Panel c) px py = False"

fun control_handleClick :: "control \<Rightarrow> rat \<Rightarrow> rat \<Rightarrow> (error + control \<times> call list) option" where
  "control_handleClick (PlainControl c) px py = None"
| "control_handleClick (Button c) px py = returned Button (button_handleClick c px py)"
| "control_handleClick (Menu c) px py = returned Menu (menu_handleClick c px py)"
| "control_handleClick (Toggle c) px py = returned Toggle (toggle_handleClick c px py)"
| "control_handleClick (TextInput c) px py = returned TextInput (textinput_handleClick c px py, [])"
| "control_handleClick (Radio c) px py = returned Radio (radio_handleClick c px py)"
| "control_handleClick (Slider c) px py = returned Slider (slider_handleClick c px py)"
| "control_handleClick (Panel c) px py = None"

fun control_handleKeyDown :: "control \<Rightarrow> key_event \<Rightarrow> (error + control \<times> call list) option" where
  "control_handleKeyDown (PlainControl c) e = None"
| "control_handleKeyDown (Button c) e = returned Button (button_handleKeyDown c e)"
| "control_handleKeyDown (Menu c) e = returned_or_error Menu (menu_handleKeyDown c e)"
| "control_handleKeyDown (Toggle c) e = returned Toggle (toggle_handleKeyDown c e)"
| "control_handleKeyDown (TextInput c) e = returned TextInput (textinput_handleKeyDown c e, [])"
| "control_handleKeyDown (Radio c) e = returned_or_error Radio (radio_handleKeyDown c e)"
| "control_handleKeyDown (Slider c) e = returned Slider (slider_handleKeyDown c e)"
| "control_handleKeyDown (Panel c) e = None"

fun control_activate :: "control \<Rightarrow> (error + control \<times> call list) option" where
  "control_activate (Button c) = returned Button (button_activate c)"
| "control_activate (Menu c) = returned_or_error Menu (menu_activate c)"
| "control_activate (Toggle c) = returned Toggle (toggle_activate c)"
| "control_activate c = None"

fun control_handleGamepadAxis :: "control \<Rightarrow> int \<Rightarrow> (error + control \<times> call list) option" where
  "control_handleGamepadAxis (Slider c) d = returned Slider (slider_handleGamepadAxis c d)"
| "control_handleGamepadAxis c d = None"

fun control_handleGamepadLeft :: "control \<Rightarrow> (error + control \<times> call list) option" where
  "control_handleGamepadLeft (Menu c) = returned_or_error Menu (menu_handleGamepadLeft c)"
| "control_handleGamepadLeft (Radio c) = returned_or_error Radio (radio_handleGamepadLeft c)"
| "control_handleGamepadLeft c = None"

fun control_handleGamepadRight :: "control \<Rightarrow> (error + control \<times> call list) option" where
  "control_handleGamepadRight (Menu c) = returned_or_error Menu (menu_handleGamepadRight c)"
| "control_handleGamepadRight (Radio c) = returned_or_error Radio (radio_handleGamepadRight c)"
| "control_handleGamepadRight c = None"

text \<open>\<^verbatim>\<open>control.manager = this\<close>.\<close>

fun control_set_manager :: "control \<Rightarrow> control" where
  "control_set_manager (PlainControl c) = PlainControl (c\<lparr>manager := True\<rparr>)"
| "control_set_manager (Button c) = Button (c\<lparr>manager := True\<rparr>)"
| "control_set_manager (Menu c) = Menu (c\<lparr>manager := True\<rparr>)"
| "control_set_manager (Toggle c) = Toggle (c\<lparr>manager := True\<rparr>)"
| "control_set_manager (TextInput c) = TextInput (c\<lparr>manager := True\<rparr>)"
| "control_set_manager (Radio c) = Radio (c\<lparr>manager := True\<rparr>)"
| "control_set_manager (Slider c) = Slider (c\<lparr>manager := True\<rparr>)"
| "control_set_manager (Panel c) = Panel (c\<lparr>manager := True\<rparr>)"

subsection \<open>Modal objects\<close>

text \<open>
  The callback of a modal action: a function of the application, or the closure
  \<^verbatim>\<open>() => this.close()\<close> that the constructor creates for the default OK action, which
  captures the modal under construction.
\<close>

datatype modal_callback = AppCallback nat | CloseClosure nat

record modal_button =
  label :: string
  callback :: "modal_callback option"

record modal =
  title :: string
  message :: string
  buttons :: "modal_button list"
  selectedButton :: int
  x :: rat
  y :: rat
  width :: rat
  height :: rat
  buttonHeight :: rat
  buttonWidth :: rat
  buttonSpacing :: rat

text \<open>
  The constructor. \<open>self\<close> is the reference of the new object. The size \<open>dims\<close> of the
  dialog comes from the options or from measuring the wrapped message with the canvas
  context, and \<open>canvas\<close> is the size of the canvas; both are taken as given.
\<close>

definition Modal_new ::
  "nat \<Rightarrow> string \<Rightarrow> string \<Rightarrow> modal_button list \<Rightarrow> rat \<times> rat \<Rightarrow> rat \<times> rat \<Rightarrow> modal" where
  "Modal_new self ttl msg bs dims canvas =
     \<lparr>title = ttl, message = msg,
      buttons = (if length bs > 0 then bs
                 else [\<lparr>modal_button.label = ''OK'',
                        modal_button.callback = Some (CloseClosure self)\<rparr>]),
      selectedButton = 0,
      x = (fst canvas - fst dims) / 2,
      y = (snd canvas - snd dims) / 2,
      width = fst dims, height = snd dims,
      buttonHeight = 50, buttonWidth = 150, buttonSpacing = 20\<rparr>"

text \<open>
  The predicate of \<^verbatim>\<open>buttons.find\<close> in the Escape branch: the lower-cased label is
  \<open>exit\<close>, \<open>close\<close> or \<open>cancel\<close>.
\<close>

definition is_exit_button :: "modal_button \<Rightarrow> bool" where
  "is_exit_button b \<longleftrightarrow>
     toLowerCase (modal_button.label b) = ''exit'' \<or>
     toLowerCase (modal_button.label b) = ''close'' \<or>
     toLowerCase (modal_button.label b) = ''cancel''"

text \<open>The test of the click loop: the point lies on the \<open>i\<close>-th button of the row.\<close>

definition modal_button_hit :: "modal \<Rightarrow> rat \<Rightarrow> rat \<Rightarrow> nat \<Rightarrow> bool" where
  "modal_button_hit m px py i =
     (let buttonsY = modal.y m + modal.height m - buttonHeight m - 20;
          n = of_nat (length (buttons m));
          totalButtonWidth = n * buttonWidth m + (n - 1) * buttonSpacing m;
          startX = modal.x m + (modal.width m - totalButtonWidth) / 2;
          buttonX = startX + of_nat i * (buttonWidth m + buttonSpacing m)
      in px \<ge> buttonX \<and> px \<le> buttonX + buttonWidth m \<and>
         py \<ge> buttonsY \<and> py \<le> buttonsY + buttonHeight m)"

subsection \<open>The coordinator\<close>

text \<open>
  An entry of the trace: which call site of the library called which application
  callback. \<open>EscapeCall\<close> is \<^verbatim>\<open>this.onEscape()\<close>, \<open>ModalCall r\<close> is the callback of
  an action of the modal \<open>r\<close>, \<open>ControlCall r\<close> is a callback called by a handler of
  the control \<open>r\<close>.
\<close>

datatype event =
    EscapeCall nat
  | ModalCall nat nat
  | ControlCall nat nat "jsval list"

text \<open>
  The state of a \<^verbatim>\<open>CanvasUIMark\<close> object together with the objects it refers to.
  \<open>controls\<close> and \<open>modals\<close> are arrays of references; \<open>control_at\<close> and \<open>modal_at\<close>
  give the object behind a reference; \<open>next_modal\<close> is the first reference that no
  \<^verbatim>\<open>new Modal\<close> has used yet; \<open>trace\<close> records the application callbacks called so
  far. The fields for drawing (canvas, context, toasts, images, texts, options), the
  mouse and gamepad snapshots and the animation frame are not read or written by the
  operations below and are left out.
\<close>

record ui =
  controls :: "nat list"
  focusIndex :: int
  modals :: "nat list"
  keys :: "(string \<times> bool) list"
  onEscape :: "nat option"
  control_at :: "nat \<Rightarrow> control"
  modal_at :: "nat \<Rightarrow> modal"
  next_modal :: nat
  trace :: "event list"

text \<open>
  The constructor: no controls, focus index \<open>-1\<close>, no modals, no Escape callback.
  The arguments are the objects behind the references.
\<close>

definition CanvasUIMark_new :: "(nat \<Rightarrow> control) \<Rightarrow> (nat \<Rightarrow> modal) \<Rightarrow> ui" where
  "CanvasUIMark_new cs ms =
     \<lparr>controls = [], focusIndex = -1, modals = [], keys = [], onEscape = None,
      control_at = cs, modal_at = ms, next_modal = 0, trace = []\<rparr>"

definition focusNext :: "ui \<Rightarrow> ui" where
  "focusNext s =
     (if length (controls s) = 0 then s
      else s\<lparr>focusIndex := js_rem (focusIndex s + 1) (int (length (controls s)))\<rparr>)"

definition focusPrevious :: "ui \<Rightarrow> ui" where
  "focusPrevious s =
     (if length (controls s) = 0 then s
      else s\<lparr>focusIndex :=
               js_rem (focusIndex s - 1 + int (length (controls s))) (int (length (controls s)))\<rparr>)"

definition addControl :: "nat \<Rightarrow> ui \<Rightarrow> ui" where
  "addControl r s =
     (let s1 = s\<lparr>control_at := (control_at s)(r := control_set_manager (control_at s r))\<rparr>;
          s2 = s1\<lparr>controls := controls s1 @ [r]\<rparr>
      in if focusIndex s2 = -1 \<and> length (controls s2) = 1 then s2\<lparr>focusIndex := 0\<rparr> else s2)"

definition removeControl :: "nat \<Rightarrow> ui \<Rightarrow> ui" where
  "removeControl r s =
     (let index = indexOf (controls s) r
      in if index > -1 then
           (let s1 = s\<lparr>controls := splice1 (controls s) index\<rparr>
            in if focusIndex s1 \<ge> int (length (controls s1))
               then s1\<lparr>focusIndex := int (length (controls s1)) - 1\<rparr>
               else s1)
         else s)"

definition closeModal :: "nat \<Rightarrow> ui \<Rightarrow> ui" where
  "closeModal r s =
     (let index = indexOf (modals s) r
      in if index > -1 then s\<lparr>modals := splice1 (modals s) index\<rparr> else s)"

text \<open>
  \<^verbatim>\<open>showModal\<close>: constructs a modal at a fresh reference, pushes it, returns it.
\<close>

definition showModal ::
  "string \<Rightarrow> string \<Rightarrow> modal_button list \<Rightarrow> rat \<times> rat \<Rightarrow> rat \<times> rat \<Rightarrow> ui \<Rightarrow> nat \<times> ui" where
  "showModal ttl msg bs dims canvas s =
     (let r = next_modal s
      in (r, s\<lparr>modal_at := (modal_at s)(r := Modal_new r ttl msg bs dims canvas),
               next_modal := r + 1,
               modals := modals s @ [r]\<rparr>))"

subsection \<open>Modal handlers\<close>

text \<open>\<^verbatim>\<open>close() { this.manager.closeModal(this); }\<close>\<close>

definition modal_close :: "nat \<Rightarrow> ui \<Rightarrow> ui" where
  "modal_close r s = closeModal r s"

text \<open>
  \<^verbatim>\<open>if (b.callback) b.callback()\<close> for an action \<open>b\<close> of the modal \<open>r\<close>.
\<close>

definition modal_call :: "nat \<Rightarrow> modal_button \<Rightarrow> ui \<Rightarrow> ui" where
  "modal_call r b s =
     (case modal_button.callback b of
        None \<Rightarrow> s
      | Some (AppCallback f) \<Rightarrow> s\<lparr>trace := trace s @ [ModalCall r f]\<rparr>
      | Some (CloseClosure r') \<Rightarrow> modal_close r' s)"

definition modal_handleClick :: "nat \<Rightarrow> rat \<Rightarrow> rat \<Rightarrow> ui \<Rightarrow> ui" where
  "modal_handleClick r px py s =
     (let m = modal_at s r
      in case find (modal_button_hit m px py) [0..<length (buttons m)] of
           None \<Rightarrow> s
         | Some i \<Rightarrow> modal_close r (modal_call r (buttons m ! i) s))"

definition modal_select :: "nat \<Rightarrow> error + int \<Rightarrow> ui \<Rightarrow> error + ui" where
  "modal_select r res s =
     (case res of
        Inl err \<Rightarrow> Inl err
      | Inr i \<Rightarrow> Inr (s\<lparr>modal_at := (modal_at s)(r := (modal_at s r)\<lparr>selectedButton := i\<rparr>)\<rparr>))"

text \<open>
  Calls the callback of the selected action and closes;
  \<^verbatim>\<open>this.buttons[this.selectedButton].callback\<close> throws outside the array.
\<close>

definition modal_activate_selected :: "nat \<Rightarrow> ui \<Rightarrow> error + ui" where
  "modal_activate_selected r s =
     (case element_at (buttons (modal_at s r)) (selectedButton (modal_at s r)) of
        None \<Rightarrow> Inl TypeError
      | Some b \<Rightarrow> Inr (modal_close r (modal_call r b s)))"

text \<open>
  Finds the first exit, close or cancel action, calls its callback if it has one, and
  closes.
\<close>

definition modal_exit :: "nat \<Rightarrow> ui \<Rightarrow> ui" where
  "modal_exit r s =
     (case find is_exit_button (buttons (modal_at s r)) of
        None \<Rightarrow> modal_close r s
      | Some exitButton \<Rightarrow> modal_close r (modal_call r exitButton s))"

definition modal_handleKeyDown :: "nat \<Rightarrow> key_event \<Rightarrow> ui \<Rightarrow> error + ui" where
  "modal_handleKeyDown r e s =
     (let m = modal_at s r; n = length (buttons m)
      in if key e = ''ArrowLeft'' then modal_select r (step_back (selectedButton m) n) s
         else if key e = ''ArrowRight'' then modal_select r (step_forth (selectedButton m) n) s
         else if key e = ''Enter'' \<or> key e = '' '' then modal_activate_selected r s
         else if key e = ''Escape'' then Inr (modal_exit r s)
         else Inr s)"

definition modal_handleGamepadButton :: "nat \<Rightarrow> nat \<Rightarrow> ui \<Rightarrow> error + ui" where
  "modal_handleGamepadButton r buttonIndex s =
     (let m = modal_at s r; n = length (buttons m)
      in if buttonIndex = 0 then modal_activate_selected r s
         else if buttonIndex = 1 then Inr (modal_exit r s)
         else if buttonIndex = 14 then modal_select r (step_back (selectedButton m) n) s
         else if buttonIndex = 15 then modal_select r (step_forth (selectedButton m) n) s
         else Inr s)"

subsection \<open>Input dispatch\<close>

text \<open>
  The effect of a control's handler on the state: the control \<open>r\<close> is replaced by its
  new state and the callbacks it called are appended to the trace. \<open>None\<close> is a handler
  the control does not have: nothing happens.
\<close>

definition dispatched :: "nat \<Rightarrow> (error + control \<times> call list) option \<Rightarrow> ui \<Rightarrow> error + ui" where
  "dispatched r res s =
     (case res of
        None \<Rightarrow> Inr s
      | Some (Inl err) \<Rightarrow> Inl err
      | Some (Inr (c, calls)) \<Rightarrow>
          Inr (s\<lparr>control_at := (control_at s)(r := c),
                 trace := trace s @ map (\<lambda>(f, args). ControlCall r f args) calls\<rparr>))"

text \<open>
  \<^verbatim>\<open>if (this.focusIndex >= 0 && this.focusIndex < this.controls.length)\<close>: the reference
  of the focused control.
\<close>

definition focused :: "ui \<Rightarrow> nat option" where
  "focused s =
     (if focusIndex s \<ge> 0 \<and> focusIndex s < int (length (controls s))
      then Some (controls s ! nat (focusIndex s)) else None)"

definition handleKeyDown :: "key_event \<Rightarrow> ui \<Rightarrow> error + ui" where
  "handleKeyDown e s0 =
     (let s = s0\<lparr>keys := AList.update (key e) True (keys s0)\<rparr>
      in if key e = ''Escape'' then
           (if length (modals s) > 0 then modal_handleKeyDown (last (modals s)) e s
            else (case onEscape s of
                    None \<Rightarrow> Inr s
                  | Some f \<Rightarrow> Inr (s\<lparr>trace := trace s @ [EscapeCall f]\<rparr>)))
         else if length (modals s) > 0 then modal_handleKeyDown (last (modals s)) e s
         else if key e = ''Tab'' then
           Inr (if shiftKey e then focusPrevious s else focusNext s)
         else (case focused s of
                 None \<Rightarrow> Inr s
               | Some r \<Rightarrow> dispatched r (control_handleKeyDown (control_at s r) e) s))"

text \<open>
  \<^verbatim>\<open>handleClick\<close>, from the canvas position \<open>(px, py)\<close> that
  \<^verbatim>\<open>getCanvasMousePosition\<close> computes from the host's event. The loop runs over the
  indices from the last to the first and stops at the first control that contains the
  point.
\<close>

definition handleClick :: "rat \<Rightarrow> rat \<Rightarrow> ui \<Rightarrow> error + ui" where
  "handleClick px py s =
     (if length (modals s) > 0 then Inr (modal_handleClick (last (modals s)) px py s)
      else
        (case find (\<lambda>i. control_containsPoint (control_at s (controls s ! i)) px py)
                (rev [0..<length (controls s)]) of
           None \<Rightarrow> Inr s
         | Some i \<Rightarrow>
             (let r = controls s ! i; s1 = s\<lparr>focusIndex := int i\<rparr>
              in dispatched r (control_handleClick (control_at s1 r) px py) s1)))"

text \<open>
  The directional pad, left or right: \<^verbatim>\<open>handleGamepadAxis\<close> if the control has it,
  else \<^verbatim>\<open>handleGamepadLeft\<close> or \<^verbatim>\<open>handleGamepadRight\<close> if it has that.
\<close>

definition gamepad_adjust :: "int \<Rightarrow> ui \<Rightarrow> error + ui" where
  "gamepad_adjust d s =
     (case focused s of
        None \<Rightarrow> Inr s
      | Some r \<Rightarrow>
          (case control_handleGamepadAxis (control_at s r) d of
             Some res \<Rightarrow> dispatched r (Some res) s
           | None \<Rightarrow>
               dispatched r
                 (if d < 0 then control_handleGamepadLeft (control_at s r)
                  else control_handleGamepadRight (control_at s r)) s))"

definition handleGamepadButton :: "nat \<Rightarrow> ui \<Rightarrow> error + ui" where
  "handleGamepadButton buttonIndex s =
     (if length (modals s) > 0 then modal_handleGamepadButton (last (modals s)) buttonIndex s
      else if buttonIndex = 0 then
        (case focused s of
           None \<Rightarrow> Inr s
         | Some r \<Rightarrow> dispatched r (control_activate (control_at s r)) s)
      else if buttonIndex = 1 then
        (case onEscape s of
           None \<Rightarrow> Inr s
         | Some f \<Rightarrow> Inr (s\<lparr>trace := trace s @ [EscapeCall f]\<rparr>))
      else if buttonIndex = 12 then Inr (focusPrevious s)
      else if buttonIndex = 13 then Inr (focusNext s)
      else if buttonIndex = 14 then gamepad_adjust (-1) s
      else if buttonIndex = 15 then gamepad_adjust 1 s
      else Inr s)"

subsection \<open>Input sequences and predicates used in the properties\<close>

text \<open>A key event with no modifier held.\<close>

definition plain_key :: "string \<Rightarrow> key_event" where
  "plain_key k = \<lparr>key = k, shiftKey = False, ctrlKey = False, metaKey = False\<rparr>"

text \<open>
  The directional inputs of a slider: a key event given to \<^verbatim>\<open>handleKeyDown\<close>, or a
  direction given to \<^verbatim>\<open>handleGamepadAxis\<close>; and a run of them, first input first.
\<close>

datatype slider_input = KeyDown key_event | GamepadAxis int

fun slider_adjust :: "slider \<Rightarrow> slider_input \<Rightarrow> slider" where
  "slider_adjust s (KeyDown e) = fst (slider_handleKeyDown s e)"
| "slider_adjust s (GamepadAxis d) = fst (slider_handleGamepadAxis s d)"

definition slider_run :: "slider \<Rightarrow> slider_input list \<Rightarrow> slider" where
  "slider_run s inputs = foldl slider_adjust s inputs"

text \<open>
  \<^verbatim>\<open>min <= value && value <= max\<close>, and \<^verbatim>\<open>(a - lo) % st === 0\<close>: the value \<open>a\<close> lies on the
  grid of the steps \<open>st\<close> counted from \<open>lo\<close>.
\<close>

definition in_range :: "slider \<Rightarrow> bool" where
  "in_range s \<longleftrightarrow> js_le (min_val s) (slider.value s) \<and> js_le (slider.value s) (max_val s)"

definition aligned :: "num \<Rightarrow> num \<Rightarrow> num \<Rightarrow> bool" where
  "aligned lo st a \<longleftrightarrow> js_strict_eq (js_mod (js_sub a lo) st) (Fin 0)"

definition on_grid :: "slider \<Rightarrow> bool" where
  "on_grid s \<longleftrightarrow> aligned (min_val s) (step s) (slider.value s)"





text \<open>
  The value a click on the track should produce according to the specification:
  \<open>percent\<close> is the position of the click along the track, clamped to \<open>[0, 1]\<close>,
  \<open>raw = min + percent * (max - min)\<close>, and the result is
  \<open>round ((raw - min) / step) * step + min\<close>, clamped to \<open>[min, max]\<close>; each operation
  is the one of JavaScript numbers.
\<close>

definition spec_click_percent :: "slider \<Rightarrow> rat \<Rightarrow> num" where
  "spec_click_percent s px =
     js_max (Fin 0) (js_min (Fin 1)
       (js_div (js_sub (number px) (js_add (number (control_base.x s)) (number (padding s))))
               (js_sub (number (control_base.width s)) (js_mul (Fin 2) (number (padding s))))))"

definition spec_click_raw :: "slider \<Rightarrow> rat \<Rightarrow> num" where
  "spec_click_raw s px =
     js_add (min_val s) (js_mul (spec_click_percent s px) (js_sub (max_val s) (min_val s)))"

definition spec_click_value :: "slider \<Rightarrow> rat \<Rightarrow> num" where
  "spec_click_value s px =
     js_max (min_val s) (js_min (max_val s)
       (js_add (js_mul (js_round (js_div (js_sub (spec_click_raw s px) (min_val s)) (step s))) (step s))
               (min_val s)))"

text \<open>
  \<^verbatim>\<open>new Slider(x0, 0, w, 10, lo, hi, v, st, 'Volume', null, {padding: p})\<close>, and the
  slider at the origin, 10 wide, with no padding:
  \<^verbatim>\<open>new Slider(0, 0, 10, 10, lo, hi, v, st, 'Volume', null, {padding: 0})\<close>.
\<close>

definition slider_at :: "rat \<Rightarrow> rat \<Rightarrow> rat \<Rightarrow> num \<Rightarrow> num \<Rightarrow> num \<Rightarrow> num \<Rightarrow> slider" where
  "slider_at x0 w p lo hi v st =
     \<lparr>control_base.x = x0, control_base.y = 0, control_base.width = w,
      control_base.height = 10, padding = p, manager = False,
      min_val = lo, max_val = hi, slider.value = v, step = st, slider.label = ''Volume'',
      slider.callback = None, dragging = False\<rparr>"

definition example_slider :: "num \<Rightarrow> num \<Rightarrow> num \<Rightarrow> num \<Rightarrow> slider" where
  "example_slider lo hi v st = slider_at 0 10 0 lo hi v st"

text \<open>The cursor of a text input lies within its value.\<close>

definition cursor_inv :: "text_input \<Rightarrow> bool" where
  "cursor_inv t \<longleftrightarrow> 0 \<le> cursorPos t \<and> cursorPos t \<le> int (length (text_input.value t))"

datatype textinput_input = KeyDownOn key_event | ClickAt rat rat

fun textinput_apply :: "text_input \<Rightarrow> textinput_input \<Rightarrow> text_input" where
  "textinput_apply t (KeyDownOn e) = textinput_handleKeyDown t e"
| "textinput_apply t (ClickAt px py) = textinput_handleClick t px py"

definition textinput_run :: "text_input \<Rightarrow> textinput_input list \<Rightarrow> text_input" where
  "textinput_run t inputs = foldl textinput_apply t inputs"

text \<open>
  The invariant of the focus index: \<open>-1\<close> when there is no control, and an index into
  the control list otherwise.
\<close>

definition focus_inv :: "ui \<Rightarrow> bool" where
  "focus_inv s \<longleftrightarrow>
     (if controls s = [] then focusIndex s = -1
      else 0 \<le> focusIndex s \<and> focusIndex s \<le> int (length (controls s)) - 1)"

text \<open>Every entry of a piece of trace is a callback called by a handler of the control \<open>r\<close>.\<close>

definition only_calls_of_control :: "nat \<Rightarrow> event list \<Rightarrow> bool" where
  "only_calls_of_control r evs \<longleftrightarrow>
     list_all (\<lambda>ev. case ev of ControlCall r' f args \<Rightarrow> r' = r | _ \<Rightarrow> False) evs"

text \<open>
  Two overlapping buttons, the second registered after the first:
  \<^verbatim>\<open>a = new Button(0, 0, 100, 50, 'A', f0)\<close> at reference 0 and
  \<^verbatim>\<open>b = new Button(50, 0, 100, 50, 'B', f1)\<close> at reference 1; every other reference
  holds a panel. The point \<open>(75, 25)\<close> lies in both buttons.
\<close>

definition example_button :: "rat \<Rightarrow> string \<Rightarrow> nat \<Rightarrow> button" where
  "example_button px l f =
     \<lparr>control_base.x = px, control_base.y = 0, control_base.width = 100,
      control_base.height = 50, padding = 10, manager = False,
      button.label = l, button.callback = Some f, pressed = False, pressedTime = 0,
      pressedDuration = 200\<rparr>"

definition example_controls :: "nat \<Rightarrow> control" where
  "example_controls r =
     (if r = 0 then Button (example_button 0 ''A'' 0)
      else if r = 1 then Button (example_button 50 ''B'' 1)
      else Panel \<lparr>control_base.x = 0, control_base.y = 0, control_base.width = 0,
                   control_base.height = 0, padding = 10, manager = False\<rparr>)"

definition example_modals :: "nat \<Rightarrow> modal" where
  "example_modals r = Modal_new r ''Title'' ''Message'' [] (400, 200) (800, 600)"

definition example_ui :: ui where
  "example_ui = addControl 1 (addControl 0 (CanvasUIMark_new example_controls example_modals))"

text \<open>Every entry of a piece of trace is the callback of an action of the modal \<open>r\<close>.\<close>

definition only_calls_of_modal :: "nat \<Rightarrow> event list \<Rightarrow> bool" where
  "only_calls_of_modal r evs \<longleftrightarrow>
     list_all (\<lambda>ev. case ev of ModalCall r' f \<Rightarrow> r' = r | _ \<Rightarrow> False) evs"

text \<open>
  A modal as the constructor and the handlers leave it: at least one action, and a
  selected index within the action list.
\<close>

definition modal_ok :: "modal \<Rightarrow> bool" where
  "modal_ok m \<longleftrightarrow>
     buttons m \<noteq> [] \<and> 0 \<le> selectedButton m \<and> selectedButton m < int (length (buttons m))"

text \<open>
  Two strings are equal up to the case of the letters \<open>A\<close> to \<open>Z\<close>: they have the same
  length and, position by position, the same character or the two cases of one letter.
\<close>

definition same_letter :: "char \<Rightarrow> char \<Rightarrow> bool" where
  "same_letter c d \<longleftrightarrow>
     c = d \<or>
     ((65::nat) \<le> of_char c \<and> of_char c \<le> (90::nat) \<and> of_char d = of_char c + (32::nat)) \<or>
     ((65::nat) \<le> of_char d \<and> of_char d \<le> (90::nat) \<and> of_char c = of_char d + (32::nat))"

definition equal_ignoring_case :: "string \<Rightarrow> string \<Rightarrow> bool" where
  "equal_ignoring_case a b \<longleftrightarrow> list_all2 same_letter a b"

text \<open>
  The coordinator of the example with an Escape callback (\<^verbatim>\<open>ui.onEscape = f9\<close>) and
  one modal open. \<open>example_pause_ui\<close> has the actions Resume (no callback) and Exit
  (callback \<open>f7\<close>); \<open>example_confirm_ui\<close> has the actions Yes and No (callbacks \<open>f3\<close>
  and \<open>f4\<close>); \<open>example_alert_ui\<close> has no action given, hence the default OK.
\<close>

definition example_pause_ui :: ui where
  "example_pause_ui =
     snd (showModal ''Paused'' ''Game is paused''
            [\<lparr>modal_button.label = ''Resume'', modal_button.callback = None\<rparr>,
             \<lparr>modal_button.label = ''Exit'', modal_button.callback = Some (AppCallback 7)\<rparr>]
            (400, 200) (800, 600) (example_ui\<lparr>onEscape := Some 9\<rparr>))"

definition example_confirm_ui :: ui where
  "example_confirm_ui =
     snd (showModal ''Confirm Action'' ''Are you sure you want to proceed?''
            [\<lparr>modal_button.label = ''Yes'', modal_button.callback = Some (AppCallback 3)\<rparr>,
             \<lparr>modal_button.label = ''No'', modal_button.callback = Some (AppCallback 4)\<rparr>]
            (400, 200) (800, 600) (example_ui\<lparr>onEscape := Some 9\<rparr>))"

definition example_alert_ui :: ui where
  "example_alert_ui =
     snd (showModal ''Saved'' ''Your game was saved'' [] (400, 200) (800, 600)
            (example_ui\<lparr>onEscape := Some 9\<rparr>))"

text \<open>
  What the handlers of the modal \<open>r\<close> leave alone between two states: the control list,
  the focus index, the control objects and the Escape callback are the same, and the
  trace has grown by callbacks of actions of \<open>r\<close> only.
\<close>

definition modal_frame :: "nat \<Rightarrow> ui \<Rightarrow> ui \<Rightarrow> bool" where
  "modal_frame r s s' \<longleftrightarrow>
     controls s' = controls s \<and> focusIndex s' = focusIndex s \<and>
     control_at s' = control_at s \<and> onEscape s' = onEscape s \<and>
     (\<exists>evs. trace s' = trace s @ evs \<and> only_calls_of_modal r evs)"

text \<open>
  The invariant of the modal stack: no modal is on the stack twice, and every modal on
  it was constructed by \<^verbatim>\<open>showModal\<close> (its reference is below \<open>next_modal\<close>) and has
  a non-empty action list with the selected index within it.
\<close>

definition modal_stack_inv :: "ui \<Rightarrow> bool" where
  "modal_stack_inv s \<longleftrightarrow>
     distinct (modals s) \<and>
     list_all (\<lambda>r. r < next_modal s \<and> modal_ok (modal_at s r)) (modals s)"

text \<open>
  The states of a coordinator that an application can produce through the operations
  of the embedding: construction, assignment to \<^verbatim>\<open>onEscape\<close>, creation or change of a
  control object by the application, registration and removal of controls, focus
  navigation, opening and closing of modals, and the dispatch of key, click and gamepad
  events that return.
\<close>

inductive reachable :: "ui \<Rightarrow> bool" where
  constructed: "reachable (CanvasUIMark_new cs ms)"
| onEscape_set: "reachable s \<Longrightarrow> reachable (s\<lparr>onEscape := f\<rparr>)"
| control_object: "reachable s \<Longrightarrow> reachable (s\<lparr>control_at := (control_at s)(r := c)\<rparr>)"
| control_added: "reachable s \<Longrightarrow> reachable (addControl r s)"
| control_removed: "reachable s \<Longrightarrow> reachable (removeControl r s)"
| focus_next: "reachable s \<Longrightarrow> reachable (focusNext s)"
| focus_previous: "reachable s \<Longrightarrow> reachable (focusPrevious s)"
| modal_shown: "reachable s \<Longrightarrow> reachable (snd (showModal ttl msg bs dims canvas s))"
| modal_closed: "reachable s \<Longrightarrow> reachable (closeModal r s)"
| key_down: "reachable s \<Longrightarrow> handleKeyDown e s = Inr s' \<Longrightarrow> reachable s'"
| click: "reachable s \<Longrightarrow> handleClick px py s = Inr s' \<Longrightarrow> reachable s'"
| gamepad_button: "reachable s \<Longrightarrow> handleGamepadButton b s = Inr s' \<Longrightarrow> reachable s'"

section \<open>Properties\<close>

subsection \<open>Lists and remainders\<close>

lemma js_rem_nonneg: "0 \<le> a \<Longrightarrow> 0 < n \<Longrightarrow> js_rem a n = a mod n"
  by (cases "a = 0") (simp_all add: js_rem_def)

lemma indexOf_ge: "-1 \<le> indexOf xs v"
  by (induction xs) (auto simp: Let_def)

lemma indexOf_absent: "indexOf xs v = -1 \<longleftrightarrow> v \<notin> set xs"
proof (induction xs)
  case Nil
  show ?case by simp
next
  case (Cons a xs)
  have "-1 \<le> indexOf xs v" by (rule indexOf_ge)
  with Cons show ?case by (auto simp: Let_def)
qed

lemma indexOf_present: "indexOf xs v > -1 \<longleftrightarrow> v \<in> set xs"
  using indexOf_ge[of xs v] indexOf_absent[of xs v] by linarith

lemma splice1_indexOf: "v \<in> set xs \<Longrightarrow> splice1 xs (indexOf xs v) = remove1 v xs"
proof (induction xs)
  case Nil
  then show ?case by simp
next
  case (Cons a xs)
  show ?case
  proof (cases "a = v")
    case True
    then show ?thesis by (simp add: splice1_def)
  next
    case False
    with Cons.prems have in_xs: "v \<in> set xs" by simp
    then have pos: "indexOf xs v > -1" by (simp add: indexOf_present)
    then have "nat (indexOf xs v + 1) = Suc (nat (indexOf xs v))" by linarith
    with False pos Cons.IH[OF in_xs] show ?thesis
      by (simp add: splice1_def Let_def)
  qed
qed

lemma length_remove1_int:
  "v \<in> set xs \<Longrightarrow> int (length (remove1 v xs)) = int (length xs) - 1"
  using length_pos_if_in_set[of v xs] by (simp add: length_remove1 of_nat_diff Suc_leI)

lemma find_Some_mem: "find P xs = Some v \<Longrightarrow> v \<in> set xs \<and> P v"
  by (induction xs) (auto split: if_splits)

lemma find_rev_upt_less: "find P (rev [0..<n]) = Some i \<Longrightarrow> i < n"
  by (drule find_Some_mem) simp



subsection \<open>Rounding to binary64\<close>

text \<open>
  \<open>ilog2\<close> is the integer binary logarithm; rounding to an integer is monotone against
  integers and odd; \<open>round64\<close> is odd, never passes a number that it leaves unchanged,
  and leaves unchanged every \<open>n * 2 powi k\<close> with \<open>\<bar>n\<bar> \<le> 2 ^ 53\<close> and \<open>k \<ge> - 1074\<close>.
\<close>

lemma p2_pos: "(0::rat) < 2 powi k" by simp
lemma p2_add: "(2::rat) powi (m + n) = 2 powi m * 2 powi n" by (simp add: power_int_add)
lemma p2_diff: "(2::rat) powi (m - n) = 2 powi m / 2 powi n" by (simp add: power_int_diff)
lemma p2_mono: "m \<le> n \<Longrightarrow> (2::rat) powi m \<le> 2 powi n" by (simp add: power_int_increasing)
lemma p2_strict_mono: "m < n \<Longrightarrow> (2::rat) powi m < 2 powi n" by (simp add: power_int_strict_increasing)
lemma p2_less_cancel: "(2::rat) powi m < 2 powi n \<Longrightarrow> m < n"
  using p2_mono[of n m] by (cases "m < n") auto
lemma p2_nat: "0 \<le> k \<Longrightarrow> (2::rat) powi k = of_int (2 ^ nat k)" by (simp add: power_int_def)


lemma pos_quotient:
  assumes "0 < q" "quotient_of q = (a, b)"
  shows "0 < a" "0 < b" "q = of_int a / of_int b"
proof -
  show b: "0 < b" using assms(2) by (rule quotient_of_denom_pos)
  show q: "q = of_int a / of_int b" using assms(2) by (rule quotient_of_div)
  from assms(1) q b show "0 < a" by (simp add: zero_less_divide_iff)
qed

lemma pow2_bitlen:
  assumes "0 < (a::int)"
  shows "(2::rat) powi (bitlen a - 1) \<le> of_int a" "of_int a < (2::rat) powi bitlen a"
proof -
  from bitlen_bounds[OF assms] have l: "2 ^ nat (bitlen a - 1) \<le> a" and u: "a < 2 ^ nat (bitlen a)"
    by simp_all
  have ge1: "1 \<le> bitlen a" using assms by (auto simp: bitlen_alt_def)
  have "(2::rat) powi (bitlen a - 1) = 2 ^ nat (bitlen a - 1)"
    using ge1 by (simp add: power_int_def)
  also have "\<dots> = of_int (2 ^ nat (bitlen a - 1))" by simp
  also have "\<dots> \<le> of_int a" using l by (simp only: of_int_le_iff)
  finally show "(2::rat) powi (bitlen a - 1) \<le> of_int a" .
  have "(of_int a :: rat) < of_int (2 ^ nat (bitlen a))" using u by (simp only: of_int_less_iff)
  also have "\<dots> = 2 ^ nat (bitlen a)" by simp
  also have "\<dots> = (2::rat) powi bitlen a" using ge1 by (simp add: power_int_def)
  finally show "of_int a < (2::rat) powi bitlen a" .
qed

lemma ilog2_bounds:
  assumes "0 < q"
  shows "2 powi ilog2 q \<le> q" "q < 2 powi (ilog2 q + 1)"
proof -
  obtain a b where ab: "quotient_of q = (a, b)" by (cases "quotient_of q")
  from pos_quotient[OF assms ab] have a: "0 < a" and b: "0 < b" and q: "q = of_int a / of_int b"
    by simp_all
  let ?k = "bitlen a - bitlen b"
  have bpos: "(0::rat) < of_int b" using b by simp
  have lo: "2 powi (?k - 1) \<le> q"
  proof -
    have "?k - 1 = bitlen a - 1 - bitlen b" by simp
    then have "(2::rat) powi (?k - 1) = 2 powi (bitlen a - 1) / 2 powi bitlen b"
      by (simp only: p2_diff)
    also have "\<dots> \<le> of_int a / 2 powi bitlen b"
      using pow2_bitlen(1)[OF a] by (simp add: divide_right_mono)
    also have "\<dots> \<le> of_int a / of_int b"
      using pow2_bitlen(2)[OF b] a bpos by (simp add: frac_le)
    finally show ?thesis by (simp add: q)
  qed
  have hi: "q < 2 powi (?k + 1)"
  proof -
    have "q = of_int a / of_int b" by (rule q)
    also have "\<dots> < 2 powi bitlen a / of_int b"
      using pow2_bitlen(2)[OF a] bpos by (simp add: divide_strict_right_mono)
    also have "\<dots> \<le> 2 powi bitlen a / 2 powi (bitlen b - 1)"
      using pow2_bitlen(1)[OF b] bpos by (intro divide_left_mono) simp_all
    also have "\<dots> = 2 powi (bitlen a - (bitlen b - 1))"
      by (simp only: p2_diff)
    also have "bitlen a - (bitlen b - 1) = ?k + 1" by simp
    finally show ?thesis .
  qed
  have i: "ilog2 q = (if 2 powi ?k \<le> q then ?k else ?k - 1)"
    by (simp add: ilog2_def ab Let_def)
  show "2 powi ilog2 q \<le> q" using lo by (simp add: i)
  show "q < 2 powi (ilog2 q + 1)" using hi by (auto simp: i not_le)
qed

lemma rhe_of_int: "round_half_even (of_int n) = n"
  by (simp add: round_half_even_def Let_def)

lemma rhe_cases:
  "round_half_even u = \<lfloor>u\<rfloor> \<or> round_half_even u = \<lfloor>u\<rfloor> + 1 \<and> u \<noteq> of_int \<lfloor>u\<rfloor>"
  by (auto simp: round_half_even_def Let_def)

lemma floor_le_of_le: "u \<le> of_int M \<Longrightarrow> \<lfloor>u::rat\<rfloor> \<le> M"
  using floor_mono[of u "of_int M"] by simp

lemma rhe_le: 
  assumes "u \<le> of_int M" shows "round_half_even u \<le> M"
proof (cases "u = of_int \<lfloor>u\<rfloor>")
  case True
  then have "round_half_even u = \<lfloor>u\<rfloor>" using rhe_cases[of u] by blast
  with floor_le_of_le[OF assms] show ?thesis by simp
next
  case False
  have 1: "\<lfloor>u\<rfloor> \<le> M" by (rule floor_le_of_le[OF assms])
  have "\<lfloor>u\<rfloor> \<noteq> M"
  proof
    assume m: "\<lfloor>u\<rfloor> = M"
    have "of_int \<lfloor>u\<rfloor> \<le> u" by (rule of_int_floor_le)
    with assms m have "u = of_int M" by simp
    with False m show False by simp
  qed
  with 1 have "\<lfloor>u\<rfloor> + 1 \<le> M" by simp
  with 1 rhe_cases[of u] show ?thesis by linarith
qed

lemma rhe_ge:
  assumes "of_int M \<le> u" shows "M \<le> round_half_even u"
proof -
  have "M \<le> \<lfloor>u\<rfloor>" using assms by (simp add: le_floor_iff)
  with rhe_cases[of u] show ?thesis by linarith
qed

lemma floor_minus_nonint:
  assumes "u \<noteq> of_int \<lfloor>u::rat\<rfloor>" shows "\<lfloor>- u\<rfloor> = - \<lfloor>u\<rfloor> - 1"
proof (rule floor_unique)
  have l': "of_int \<lfloor>u\<rfloor> < u" using assms by (auto simp: less_le)
  have u: "u < of_int \<lfloor>u\<rfloor> + 1" by linarith
  show "of_int (- \<lfloor>u\<rfloor> - 1) \<le> - u" using u by simp
  show "- u < of_int (- \<lfloor>u\<rfloor> - 1) + 1" using l' by simp
qed

lemma rhe_minus: "round_half_even (- u) = - round_half_even u"
proof (cases "u = of_int \<lfloor>u\<rfloor>")
  case True
  then obtain n where n: "u = of_int n" ..
  have "- u = of_int (- n)" by (simp add: n)
  then have "round_half_even (- u) = - n" by (simp only: rhe_of_int)
  then show ?thesis by (simp add: n rhe_of_int)
next
  case False
  note f = floor_minus_nonint[OF False]
  define r where "r = u - of_int \<lfloor>u\<rfloor>"
  have u: "u = of_int \<lfloor>u\<rfloor> + r" by (simp add: r_def)
  have a: "round_half_even u = (if r < 1 / 2 then \<lfloor>u\<rfloor> else if r > 1 / 2 then \<lfloor>u\<rfloor> + 1
             else if even \<lfloor>u\<rfloor> then \<lfloor>u\<rfloor> else \<lfloor>u\<rfloor> + 1)"
    by (simp add: round_half_even_def Let_def r_def)
  have "- u - of_int (- \<lfloor>u\<rfloor> - 1) = 1 - r" by (simp add: r_def)
  then have b: "round_half_even (- u) = (if 1 - r < 1 / 2 then - \<lfloor>u\<rfloor> - 1 else if 1 - r > 1 / 2 then - \<lfloor>u\<rfloor>
             else if even (- \<lfloor>u\<rfloor> - 1) then - \<lfloor>u\<rfloor> - 1 else - \<lfloor>u\<rfloor>)"
    by (simp add: round_half_even_def Let_def f)
  have c: "1 - r < 1 / 2 \<longleftrightarrow> r > 1 / 2" "1 - r > 1 / 2 \<longleftrightarrow> r < 1 / 2" by auto
  show ?thesis unfolding a b c by auto
qed

lemma expo_minus: "expo (- q) = expo q" by (simp add: expo_def)

lemma round64_minus: "round64 (- q) = - round64 q"
  by (simp add: round64_def expo_minus rhe_minus)

lemma round64_zero: "round64 0 = 0" by (simp add: round64_def)

lemma round64_eq: "q \<noteq> 0 \<Longrightarrow> round64 q = of_int (round_half_even (q / 2 powi expo q)) * 2 powi expo q"
  by (simp add: round64_def)

lemma expo_ge: "- 1074 \<le> expo q" by (simp add: expo_def)

lemma p2_split: "e \<le> e' \<Longrightarrow> (2::rat) powi e' = of_int (2 ^ nat (e' - e)) * 2 powi e"
proof -
  assume "e \<le> e'"
  then have "(2::rat) powi (e' - e) = of_int (2 ^ nat (e' - e))" by (simp add: p2_nat)
  moreover have "(2::rat) powi e' = 2 powi (e' - e) * 2 powi e"
    by (simp only: p2_add[symmetric]) simp
  ultimately show ?thesis by simp
qed




lemma round64_fixed:
  assumes "q = of_int M * 2 powi expo q" shows "round64 q = q"
proof (cases "q = 0")
  case True then show ?thesis by (simp add: round64_zero)
next
  case False
  have "q / 2 powi expo q = of_int M * 2 powi expo q / 2 powi expo q" using assms by simp
  then have "q / 2 powi expo q = of_int M" by simp
  then have "round_half_even (q / 2 powi expo q) = M" by (simp only: rhe_of_int)
  then have "round64 q = of_int M * 2 powi expo q" by (simp add: round64_eq[OF False])
  with assms show ?thesis by simp
qed

lemma p2_le_cancel: "(2::rat) powi m \<le> 2 powi n \<Longrightarrow> m \<le> n"
  using p2_strict_mono[of n m] by (cases "m \<le> n") auto

lemma round64_exact:
  assumes k: "- 1074 \<le> k" and n: "\<bar>n\<bar> \<le> 2 ^ 53"
  shows "round64 (of_int n * 2 powi k) = of_int n * 2 powi k"
proof (cases "n = 0")
  case True then show ?thesis by (simp add: round64_zero)
next
  case False
  define q :: rat where "q = of_int n * 2 powi k"
  have q0: "q \<noteq> 0" using False by (simp add: q_def)
  have aq: "\<bar>q\<bar> = of_int \<bar>n\<bar> * 2 powi k" by (simp add: q_def abs_mult)
  have "(of_int \<bar>n\<bar> :: rat) \<le> of_int (2 ^ 53)" using n by (simp only: of_int_le_iff)
  then have "\<bar>q\<bar> \<le> of_int (2 ^ 53) * 2 powi k" unfolding aq by (simp add: mult_right_mono)
  also have "\<dots> = 2 powi (k + 53)" using p2_split[of k "k + 53"] by simp
  finally have up: "\<bar>q\<bar> \<le> 2 powi (k + 53)" .
  have "\<exists>M. q = of_int M * 2 powi expo q"
  proof (cases "expo q \<le> k")
    case True
    have "q = of_int n * (of_int (2 ^ nat (k - expo q)) * 2 powi expo q)"
      using p2_split[OF True] by (simp add: q_def)
    then have "q = of_int (n * 2 ^ nat (k - expo q)) * 2 powi expo q" by simp
    then show ?thesis ..
  next
    case gt: False
    with k have ex: "expo q = ilog2 \<bar>q\<bar> - 52" unfolding expo_def by linarith
    have lo: "2 powi ilog2 \<bar>q\<bar> \<le> \<bar>q\<bar>" using q0 by (intro ilog2_bounds(1)) simp
    from lo up have "(2::rat) powi ilog2 \<bar>q\<bar> \<le> 2 powi (k + 53)" by simp
    then have "ilog2 \<bar>q\<bar> \<le> k + 53" by (rule p2_le_cancel)
    with gt ex have il: "ilog2 \<bar>q\<bar> = k + 53" and e: "expo q = k + 1" by simp_all
    from lo up have "\<bar>q\<bar> = 2 powi (k + 53)" by (simp add: il)
    also have "\<dots> = of_int (2 ^ 52) * 2 powi expo q"
      using p2_split[of "k + 1" "k + 53"] by (simp add: e)
    finally have a: "\<bar>q\<bar> = of_int (2 ^ 52) * 2 powi expo q" .
    show ?thesis
    proof (cases "0 \<le> q")
      case True with a have "q = of_int (2 ^ 52) * 2 powi expo q" by simp
      then show ?thesis ..
    next
      case False with a have "q = of_int (- (2 ^ 52)) * 2 powi expo q" by simp
      then show ?thesis ..
    qed
  qed
  then obtain M where "q = of_int M * 2 powi expo q" ..
  then have "round64 q = q" by (rule round64_fixed)
  then show ?thesis by (simp add: q_def)
qed

lemma quantum_le_max_double:
  assumes k: "k \<le> 970" and n: "\<bar>n\<bar> \<le> 2 ^ 53"
  shows "\<bar>of_int n * 2 powi k\<bar> \<le> max_double"
proof -
  have "(of_int \<bar>n\<bar> :: rat) \<le> of_int (2 ^ 53)" using n by (simp only: of_int_le_iff)
  then have "\<bar>of_int n * (2::rat) powi k\<bar> \<le> of_int (2 ^ 53) * 2 powi k"
    by (simp add: abs_mult mult_right_mono)
  also have "\<dots> \<le> of_int (2 ^ 53) * 2 powi 970" using p2_mono[OF k] by simp
  also have "\<dots> \<le> max_double" by (simp add: max_double_def power_int_def)
  finally show ?thesis .
qed

subsection \<open>Arithmetic of JavaScript numbers\<close>

text \<open>The largest finite number as a numeral; concrete numbers are evaluated with it.\<close>

lemma max_double_numeral [code]:
  "max_double = 179769313486231570814527423731704356798070567525844996598917476803157260780028538760589558632766878171540458953514382464234321326889464182768467546703537516986049910576551282076245490090389328944075868508455133942304583236903222948165808559332123348274797826204144723168738177180919299881250404026184124858368"
  by (simp add: max_double_def)

lemma is_double_zero: "is_double 0"
  by (simp add: is_double_def round64_zero max_double_def)



















subsection \<open>The results of operations are numbers of the format\<close>

lemma round64_scaled:
  "\<exists>K. round64 q = of_int K * 2 powi expo q \<and> \<bar>K\<bar> \<le> 2 ^ 53"
proof (cases "q = 0")
  case True
  have "round64 q = of_int 0 * 2 powi expo q" by (simp add: True round64_zero)
  then show ?thesis by (intro exI[of _ 0]) simp
next
  case False
  define e where "e = expo q"
  define w where "w = q / 2 powi e"
  have aq: "0 < \<bar>q\<bar>" using False by simp
  have "ilog2 \<bar>q\<bar> - 52 \<le> e" by (simp add: e_def expo_def)
  then have "ilog2 \<bar>q\<bar> + 1 \<le> e + 53" by simp
  then have "(2::rat) powi (ilog2 \<bar>q\<bar> + 1) \<le> 2 powi (e + 53)" by (rule p2_mono)
  with ilog2_bounds(2)[OF aq] have "\<bar>q\<bar> < 2 powi (e + 53)" by simp
  also have "\<dots> = of_int (2 ^ 53) * 2 powi e" using p2_split[of e "e + 53"] by simp
  finally have "\<bar>q\<bar> / 2 powi e < of_int (2 ^ 53)" by (simp add: pos_divide_less_eq)
  then have "\<bar>w\<bar> < of_int (2 ^ 53)" by (simp add: w_def)
  then have b: "w \<le> of_int (2 ^ 53)" "of_int (- (2 ^ 53)) \<le> w" by simp_all
  have "round_half_even w \<le> 2 ^ 53" by (rule rhe_le[OF b(1)])
  moreover have "- (2 ^ 53) \<le> round_half_even w" by (rule rhe_ge[OF b(2)])
  ultimately have "\<bar>round_half_even w\<bar> \<le> 2 ^ 53" by simp
  moreover have "round64 q = of_int (round_half_even w) * 2 powi expo q"
    by (simp add: round64_eq[OF False] w_def e_def)
  ultimately show ?thesis by blast
qed

lemma round64_idem: "round64 (round64 q) = round64 q"
proof -
  from round64_scaled[of q] obtain K where
    K: "round64 q = of_int K * 2 powi expo q" "\<bar>K\<bar> \<le> 2 ^ 53" by blast
  from round64_exact[OF expo_ge K(2), of q] show ?thesis by (simp only: K(1))
qed

lemma binary64_fl: "binary64 (fl neg q)"
  by (auto simp: fl_def Let_def signed_zero_def signed_inf_def binary64_def is_double_def
      round64_idem round64_zero max_double_def)

lemma number_double: "is_double q \<Longrightarrow> number q = Fin q"
  by (auto simp: number_def fl_def Let_def signed_zero_def is_double_def)

lemma binary64_js_neg: "binary64 a \<Longrightarrow> binary64 (js_neg a)"
  by (cases a) (auto simp: js_neg_def binary64_def is_double_def round64_minus round64_zero max_double_def)

lemma binary64_js_add: "binary64 a \<Longrightarrow> binary64 b \<Longrightarrow> binary64 (js_add a b)"
  by (simp add: js_add_def binary64_fl) (simp add: binary64_def)

lemma binary64_js_sub: "binary64 a \<Longrightarrow> binary64 b \<Longrightarrow> binary64 (js_sub a b)"
  by (simp add: js_sub_def binary64_js_add binary64_js_neg)

lemma binary64_js_mul: "binary64 (js_mul a b)"
  by (simp add: js_mul_def binary64_fl signed_inf_def) (simp add: binary64_def)

lemma binary64_js_div: "binary64 (js_div a b)"
  by (simp add: js_div_def binary64_fl signed_inf_def signed_zero_def)
     (simp add: binary64_def is_double_zero)

lemma binary64_js_max: "binary64 a \<Longrightarrow> binary64 b \<Longrightarrow> binary64 (js_max a b)"
  by (simp add: js_max_def) (simp add: binary64_def)

lemma binary64_js_min: "binary64 a \<Longrightarrow> binary64 b \<Longrightarrow> binary64 (js_min a b)"
  by (simp add: js_min_def) (simp add: binary64_def)

lemma is_double_of_int: "\<bar>n\<bar> \<le> 2 ^ 53 \<Longrightarrow> is_double (of_int n)"
  using round64_exact[of 0 n] quantum_le_max_double[of 0 n] by (simp add: is_double_def)

lemma double_large_integer:
  assumes d: "round64 q = q" and l: "2 ^ 52 \<le> \<bar>q\<bar>"
  shows "\<exists>n::int. q = of_int n"
proof -
  have q0: "q \<noteq> 0" using l by auto
  have aq: "0 < \<bar>q\<bar>" using q0 by simp
  have "(2::rat) powi 52 \<le> \<bar>q\<bar>" using l by simp
  also have "\<dots> < 2 powi (ilog2 \<bar>q\<bar> + 1)" by (rule ilog2_bounds(2)[OF aq])
  finally have "52 < ilog2 \<bar>q\<bar> + 1" by (rule p2_less_cancel)
  then have e: "0 \<le> expo q" by (simp add: expo_def)
  define K where "K = round_half_even (q / 2 powi expo q)"
  have "q = of_int K * 2 powi expo q" using d round64_eq[OF q0] by (simp add: K_def)
  also have "\<dots> = of_int (K * 2 ^ nat (expo q))" using e by (simp add: p2_nat)
  finally show ?thesis ..
qed

lemma binary64_js_round: "binary64 a \<Longrightarrow> binary64 (js_round a)"
proof (cases a)
  case (Fin q)
  assume "binary64 a"
  then have d: "is_double q" by (simp add: Fin binary64_def)
  define r where "r = \<lfloor>q + 1 / 2\<rfloor>"
  have "is_double (of_int r)"
  proof (cases "\<bar>q\<bar> < 2 ^ 52")
    case True
    then have "q + 1 / 2 < of_int (2 ^ 52 + 1)" "of_int (- (2 ^ 52)) \<le> q + 1 / 2" by simp_all
    then have "r < 2 ^ 52 + 1" "- (2 ^ 52) \<le> r" unfolding r_def
      by (simp_all only: floor_less_iff le_floor_iff)
    then have "\<bar>r\<bar> \<le> 2 ^ 53" by simp
    then show ?thesis by (rule is_double_of_int)
  next
    case False
    then have "2 ^ 52 \<le> \<bar>q\<bar>" by simp
    with d obtain n :: int where n: "q = of_int n" using double_large_integer[of q]
      by (auto simp: is_double_def)
    have "r = n" unfolding r_def n by linarith
    with d n show ?thesis by simp
  qed
  then show ?thesis by (simp add: Fin js_round_def Let_def binary64_def r_def)
qed (simp_all add: js_round_def)

lemma binary64_number: "binary64 (number q)"
  by (simp add: number_def binary64_fl)

subsection \<open>Numbers on a common binary grid\<close>










subsection \<open>Slider: directional input\<close>

lemma slider_adjust_fields:
  "min_val (slider_adjust s i) = min_val s" "max_val (slider_adjust s i) = max_val s"
  "step (slider_adjust s i) = step s"
  by (cases i; simp add: slider_handleKeyDown_def slider_handleGamepadAxis_def Let_def)+

lemma slider_adjust_value_cases:
  "slider.value (slider_adjust s i) = slider.value s \<or>
   slider.value (slider_adjust s i) = js_max (min_val s) (js_sub (slider.value s) (step s)) \<or>
   slider.value (slider_adjust s i) = js_min (max_val s) (js_add (slider.value s) (step s))"
  by (cases i; simp add: slider_handleKeyDown_def slider_handleGamepadAxis_def Let_def)

lemma slider_run_fields:
  "min_val (slider_run s inputs) = min_val s \<and> max_val (slider_run s inputs) = max_val s \<and>
   step (slider_run s inputs) = step s"
  unfolding slider_run_def
  by (induction inputs arbitrary: s) (simp_all add: slider_adjust_fields)






text \<open>The value of a slider stays a number of the format.\<close>

lemma slider_adjust_binary64:
  assumes "binary64 (min_val s)" "binary64 (max_val s)" "binary64 (step s)" "binary64 (slider.value s)"
  shows "binary64 (slider.value (slider_adjust s i))"
  using slider_adjust_value_cases[of s i] assms
  by (auto simp: binary64_js_max binary64_js_min binary64_js_add binary64_js_sub)

subsection \<open>Slider: distance from the grid under rounding\<close>



















subsection \<open>Slider: range and grid after directional input\<close>


text \<open>
  More inputs that the claim as stated covers and the code does not. A starting value
  above \<open>max\<close> is not brought back by one step to the left. A maximum off the grid is
  reached by the clamp. Where a sum is rounded the value leaves the grid although it
  started on it and within the bounds: \<open>2^53 + 4\<close> plus a step of \<open>3\<close> is \<open>2^53 + 8\<close>,
  with remainder \<open>1\<close>; and three steps of \<open>0.1\<close> from \<open>0\<close> give \<open>0.30000000000000004\<close>,
  which is neither the number \<open>0.3\<close> nor a multiple of the number \<open>0.1\<close>.
\<close>

lemma slider_adjust_out_of_range_example:
  "slider.value (slider_run (example_slider (Fin 0) (Fin 100) (Fin 200) (Fin 5))
     [KeyDown (plain_key ''ArrowLeft'')]) = Fin 195 \<and>
   \<not> in_range (slider_run (example_slider (Fin 0) (Fin 100) (Fin 200) (Fin 5))
     [KeyDown (plain_key ''ArrowLeft'')])"
  by code_simp

lemma slider_adjust_max_off_grid_example:
  "in_range (example_slider (Fin 0) (Fin 12) (Fin 10) (Fin 5)) \<and>
   on_grid (example_slider (Fin 0) (Fin 12) (Fin 10) (Fin 5)) \<and>
   slider.value (slider_run (example_slider (Fin 0) (Fin 12) (Fin 10) (Fin 5)) [GamepadAxis 1]) = Fin 12 \<and>
   \<not> on_grid (slider_run (example_slider (Fin 0) (Fin 12) (Fin 10) (Fin 5)) [GamepadAxis 1])"
  by code_simp

lemma slider_adjust_rounding_example:
  "binary64 (Fin (2 ^ 53 + 4)) \<and> binary64 (Fin (2 ^ 54 + 8)) \<and>
   in_range (example_slider (Fin 0) (Fin (2 ^ 54 + 8)) (Fin (2 ^ 53 + 4)) (Fin 3)) \<and>
   on_grid (example_slider (Fin 0) (Fin (2 ^ 54 + 8)) (Fin (2 ^ 53 + 4)) (Fin 3)) \<and>
   aligned (Fin 0) (Fin 3) (Fin (2 ^ 54 + 8)) \<and>
   slider.value (slider_run (example_slider (Fin 0) (Fin (2 ^ 54 + 8)) (Fin (2 ^ 53 + 4)) (Fin 3))
     [KeyDown (plain_key ''ArrowRight'')]) = Fin (2 ^ 53 + 8) \<and>
   js_mod (js_sub (Fin (2 ^ 53 + 8)) (Fin 0)) (Fin 3) = Fin 1 \<and>
   \<not> on_grid (slider_run (example_slider (Fin 0) (Fin (2 ^ 54 + 8)) (Fin (2 ^ 53 + 4)) (Fin 3))
     [KeyDown (plain_key ''ArrowRight'')])"
  by code_simp

lemma slider_adjust_decimal_step_example:
  "on_grid (example_slider (Fin 0) (Fin 1) (Fin 0) (number (1 / 10))) \<and>
   slider.value (slider_run (example_slider (Fin 0) (Fin 1) (Fin 0) (number (1 / 10)))
     [GamepadAxis 1, GamepadAxis 1, GamepadAxis 1]) = Fin (1351079888211149 / 4503599627370496) \<and>
   number (3 / 10) = Fin (5404319552844595 / 18014398509481984) \<and>
   \<not> on_grid (slider_run (example_slider (Fin 0) (Fin 1) (Fin 0) (number (1 / 10)))
     [GamepadAxis 1, GamepadAxis 1, GamepadAxis 1])"
  by code_simp

text \<open>
  With infinite bounds and an infinite step the value becomes \<^verbatim>\<open>NaN\<close>, which lies in no
  range: from \<open>0\<close>, a step of \<open>\<infinity>\<close> to the left gives \<open>-\<infinity>\<close>, and \<open>-\<infinity> + \<infinity>\<close> is \<^verbatim>\<open>NaN\<close>.
\<close>

lemma slider_adjust_infinite_bounds_example:
  "in_range (example_slider NegInf PosInf (Fin 0) PosInf) \<and>
   slider.value (slider_run (example_slider NegInf PosInf (Fin 0) PosInf)
     [KeyDown (plain_key ''ArrowLeft''), KeyDown (plain_key ''ArrowRight'')]) = NaN \<and>
   \<not> in_range (slider_run (example_slider NegInf PosInf (Fin 0) PosInf)
     [KeyDown (plain_key ''ArrowLeft''), KeyDown (plain_key ''ArrowRight'')])"
  by code_simp



subsection \<open>Slider: click on the track\<close>

lemma slider_click_binary64:
  assumes "binary64 (min_val s)" "binary64 (max_val s)" "binary64 (slider.value s)"
  shows "binary64 (slider.value (fst (slider_updateValueFromX s px)))"
  using assms
  by (simp add: slider_updateValueFromX_def Let_def binary64_js_max binary64_js_min binary64_js_mul)

text \<open>
  The arithmetic of \<^verbatim>\<open>updateValueFromX\<close> is that of binary64 numbers. On a track
  22 wide for the values 0 to 11 with step 1, a click at 15 gives the percentage
  \<open>0.6818181818181818\<close>, whose product with 11 is just below \<open>7.5\<close>: the value is \<open>7\<close>,
  where the exact quotient \<open>15 / 22\<close> would give \<open>8\<close>. On the slider of the
  documentation (\<^verbatim>\<open>new Slider(100, 100, 300, 80, 0, 100, 50, 5, ...)\<close> with the default
  padding of 10) a click at 271 gives \<open>55\<close>.
\<close>

lemma slider_click_rounding_example:
  "slider_percent (slider_at 0 22 0 (Fin 0) (Fin 11) (Fin 0) (Fin 1)) 15
     = Fin (6141272219141585 / 9007199254740992) \<and>
   slider.value (fst (slider_updateValueFromX (slider_at 0 22 0 (Fin 0) (Fin 11) (Fin 0) (Fin 1)) 15))
     = Fin 7 \<and>
   round ((15 / 22) * 11 / 1 :: rat) = 8"
  by code_simp

lemma slider_click_documentation_example:
  "slider.value (fst (slider_updateValueFromX
     (slider_at 100 300 10 (Fin 0) (Fin 100) (Fin 50) (Fin 5)) 271)) = Fin 55"
  by code_simp

text \<open>
  With a track of width zero clicked at its start, or with a step of zero, the new
  value is \<^verbatim>\<open>NaN\<close>; it is stored and the callback is called with it.
\<close>

lemma slider_click_nan_example:
  "slider_updateValueFromX
     ((slider_at 0 0 0 (Fin 0) (Fin 100) (Fin 50) (Fin 5))\<lparr>slider.callback := Some 7\<rparr>) 0
     = ((slider_at 0 0 0 (Fin 0) (Fin 100) NaN (Fin 5))\<lparr>slider.callback := Some 7\<rparr>,
        [(7, [JNum NaN])]) \<and>
   slider_updateValueFromX
     ((example_slider (Fin 0) (Fin 100) (Fin 50) (Fin 0))\<lparr>slider.callback := Some 7\<rparr>) 3
     = ((example_slider (Fin 0) (Fin 100) NaN (Fin 0))\<lparr>slider.callback := Some 7\<rparr>,
        [(7, [JNum NaN])])"
  by code_simp

text \<open>
  Claim C3: the value resulting from a click on the track is
  \<open>round ((raw - min) / step) * step + min\<close>, clamped to \<open>[min, max]\<close>, where
  \<open>raw = min + percent * (max - min)\<close>. The code computes
  \<^verbatim>\<open>Math.round(newValue / this.step) * this.step\<close>: it rounds \<open>raw / step\<close>, neither
  subtracting \<open>min\<close> before nor adding it after, so that a click snaps to the multiples
  of the step counted from zero, while the keys and the gamepad walk the grid counted
  from \<open>min\<close>. For \<^verbatim>\<open>new Slider(0, 0, 10, 10, 1, 11, 1, 5, 'Volume', null, {padding: 0})\<close>
  a click at \<open>x = 5\<close> has \<open>raw = 6\<close>; the code sets the value \<open>5\<close>, the formula of the
  claim gives \<open>6\<close>, and \<open>6\<close> is also where ArrowRight leads from \<open>1\<close> (then \<open>11\<close>). A
  click at the right end, \<open>x = 10\<close>, sets \<open>10\<close>, where the formula gives the maximum
  \<open>11\<close>.
\<close>

theorem slider_click_ignores_min_offset:
  "spec_click_raw (example_slider (Fin 1) (Fin 11) (Fin 1) (Fin 5)) 5 = Fin 6 \<and>
   slider.value (fst (slider_updateValueFromX (example_slider (Fin 1) (Fin 11) (Fin 1) (Fin 5)) 5))
     = Fin 5 \<and>
   spec_click_value (example_slider (Fin 1) (Fin 11) (Fin 1) (Fin 5)) 5 = Fin 6 \<and>
   \<not> js_strict_eq
       (slider.value (fst (slider_updateValueFromX (example_slider (Fin 1) (Fin 11) (Fin 1) (Fin 5)) 5)))
       (spec_click_value (example_slider (Fin 1) (Fin 11) (Fin 1) (Fin 5)) 5) \<and>
   slider.value (slider_run (example_slider (Fin 1) (Fin 11) (Fin 1) (Fin 5))
     [KeyDown (plain_key ''ArrowRight'')]) = Fin 6 \<and>
   slider.value (slider_run (example_slider (Fin 1) (Fin 11) (Fin 1) (Fin 5))
     [KeyDown (plain_key ''ArrowRight''), KeyDown (plain_key ''ArrowRight'')]) = Fin 11 \<and>
   slider.value (fst (slider_updateValueFromX (example_slider (Fin 1) (Fin 11) (Fin 1) (Fin 5)) 10))
     = Fin 10 \<and>
   spec_click_value (example_slider (Fin 1) (Fin 11) (Fin 1) (Fin 5)) 10 = Fin 11"
  by code_simp

text \<open>
  Where \<open>min\<close> is zero the two formulas are the same expression up to a subtraction
  and an addition of zero; on the slider of the documentation, at the click above, both
  give \<open>55\<close>.
\<close>

lemma slider_click_zero_min_example:
  "spec_click_value (slider_at 100 300 10 (Fin 0) (Fin 100) (Fin 50) (Fin 5)) 271 = Fin 55"
  by code_simp

subsection \<open>TextInput: the cursor stays within the value\<close>

lemma length_js_slice_prefix:
  "0 \<le> c \<Longrightarrow> c \<le> int (length v) \<Longrightarrow> length (js_slice v 0 c) = nat c"
  by (auto simp: js_slice_def Let_def)

lemma length_js_slice_from:
  "0 \<le> c \<Longrightarrow> c \<le> int (length v) \<Longrightarrow> length (js_slice_from v c) = length v - nat c"
  by (auto simp: js_slice_from_def js_slice_def Let_def)

lemma textinput_click_inv: "cursor_inv (textinput_handleClick t px py)"
  by (simp add: cursor_inv_def textinput_handleClick_def)

lemma textinput_key_inv:
  assumes "cursor_inv t"
  shows "cursor_inv (textinput_handleKeyDown t e)"
proof -
  let ?v = "text_input.value t" and ?c = "cursorPos t"
  from assms have c: "0 \<le> ?c" "?c \<le> int (length ?v)" by (simp_all add: cursor_inv_def)
  have l0: "length (js_slice ?v 0 ?c) = nat ?c" using c by (rule length_js_slice_prefix)
  have l1: "length (js_slice_from ?v ?c) = length ?v - nat ?c"
    using c by (rule length_js_slice_from)
  have l2: "0 < ?c \<Longrightarrow> length (js_slice ?v 0 (?c - 1)) = nat (?c - 1)"
    using c by (intro length_js_slice_prefix) auto
  have l3: "?c < int (length ?v) \<Longrightarrow> length (js_slice_from ?v (?c + 1)) = length ?v - nat (?c + 1)"
    using c by (intro length_js_slice_from) auto
  show ?thesis
    using c l0 l1 l2 l3
    by (auto simp: cursor_inv_def textinput_handleKeyDown_def Let_def)
qed

lemma textinput_new_inv: "cursor_inv (TextInput_new px py w h ph pad)"
  by (simp add: cursor_inv_def TextInput_new_def)

lemma textinput_apply_inv: "cursor_inv t \<Longrightarrow> cursor_inv (textinput_apply t i)"
  by (cases i) (simp_all add: textinput_key_inv textinput_click_inv)

lemma textinput_run_inv: "cursor_inv t \<Longrightarrow> cursor_inv (textinput_run t inputs)"
  unfolding textinput_run_def
  by (induction inputs arbitrary: t) (simp_all add: textinput_apply_inv)

text \<open>
  Claim C10: for every TextInput the invariant \<open>0 \<le> cursorPos \<le> value.length\<close> holds
  in the initial state (empty value, cursor 0), is preserved by every
  \<^verbatim>\<open>handleKeyDown\<close> (Backspace, Delete, ArrowLeft, ArrowRight, Home, End, insertion of
  a printable character, and any other key) and by \<^verbatim>\<open>handleClick\<close>, and so holds
  after every finite run of key and click events from the initial state.
\<close>

theorem textinput_cursor_within_value:
  "cursor_inv (TextInput_new px py w h ph pad) \<and>
   (cursor_inv t \<longrightarrow>
      cursor_inv (textinput_handleKeyDown t e) \<and> cursor_inv (textinput_handleClick t cx cy)) \<and>
   cursor_inv (textinput_run (TextInput_new px py w h ph pad) inputs)"
  by (simp add: textinput_new_inv textinput_key_inv textinput_click_inv textinput_run_inv)

theorem textinput_cursor_within_value_witness:
  "text_input.value (textinput_run (TextInput_new 0 0 100 20 ''name'' 10)
      [KeyDownOn (plain_key ''a''), KeyDownOn (plain_key ''b''),
       KeyDownOn (plain_key ''ArrowLeft''), KeyDownOn (plain_key ''c'')]) = ''acb'' \<and>
   cursorPos (textinput_run (TextInput_new 0 0 100 20 ''name'' 10)
      [KeyDownOn (plain_key ''a''), KeyDownOn (plain_key ''b''),
       KeyDownOn (plain_key ''ArrowLeft''), KeyDownOn (plain_key ''c'')]) = 2 \<and>
   cursor_inv (textinput_run (TextInput_new 0 0 100 20 ''name'' 10)
      [KeyDownOn (plain_key ''a''), KeyDownOn (plain_key ''b''),
       KeyDownOn (plain_key ''ArrowLeft''), KeyDownOn (plain_key ''c'')]) \<and>
   cursor_inv (textinput_handleKeyDown (textinput_run (TextInput_new 0 0 100 20 ''name'' 10)
      [KeyDownOn (plain_key ''a''), KeyDownOn (plain_key ''b''),
       KeyDownOn (plain_key ''ArrowLeft''), KeyDownOn (plain_key ''c'')]) (plain_key ''Backspace'')) \<and>
   cursor_inv (textinput_handleClick (textinput_run (TextInput_new 0 0 100 20 ''name'' 10)
      [KeyDownOn (plain_key ''a''), KeyDownOn (plain_key ''b''),
       KeyDownOn (plain_key ''ArrowLeft''), KeyDownOn (plain_key ''c'')]) 5 5)"
proof -
  let ?t = "textinput_run (TextInput_new 0 0 100 20 ''name'' 10)
      [KeyDownOn (plain_key ''a''), KeyDownOn (plain_key ''b''),
       KeyDownOn (plain_key ''ArrowLeft''), KeyDownOn (plain_key ''c'')]"
  have v: "text_input.value ?t = ''acb''" by code_simp
  have c: "cursorPos ?t = 2" by code_simp
  have h: "cursor_inv ?t" unfolding cursor_inv_def v c by simp
  from textinput_cursor_within_value[of 0 0 100 20 "''name''" 10 ?t "plain_key ''Backspace''" 5 5] h
  have "cursor_inv (textinput_handleKeyDown ?t (plain_key ''Backspace'')) \<and>
        cursor_inv (textinput_handleClick ?t 5 5)"
    by blast
  with v c h show ?thesis by blast
qed

subsection \<open>Coordinator: the focus index\<close>

lemma closeModal_modals: "modals (closeModal r s) = remove1 r (modals s)"
  by (cases "r \<in> set (modals s)")
     (simp_all add: closeModal_def Let_def indexOf_present splice1_indexOf remove1_idem)

lemma removeControl_controls: "controls (removeControl r s) = remove1 r (controls s)"
  by (cases "r \<in> set (controls s)")
     (simp_all add: removeControl_def Let_def indexOf_present splice1_indexOf remove1_idem)

lemma closeModal_frame:
  "controls (closeModal r s) = controls s" "focusIndex (closeModal r s) = focusIndex s"
  "control_at (closeModal r s) = control_at s" "modal_at (closeModal r s) = modal_at s"
  "onEscape (closeModal r s) = onEscape s" "keys (closeModal r s) = keys s"
  "trace (closeModal r s) = trace s" "next_modal (closeModal r s) = next_modal s"
  by (simp_all add: closeModal_def Let_def)

lemma modal_call_frame:
  "controls (modal_call r b s) = controls s" "focusIndex (modal_call r b s) = focusIndex s"
  "control_at (modal_call r b s) = control_at s" "modal_at (modal_call r b s) = modal_at s"
  "onEscape (modal_call r b s) = onEscape s" "keys (modal_call r b s) = keys s"
  "next_modal (modal_call r b s) = next_modal s"
  by (simp_all add: modal_call_def modal_close_def closeModal_frame
      split: option.splits modal_callback.splits)

lemma modal_handleClick_frame:
  "controls (modal_handleClick r px py s) = controls s"
  "focusIndex (modal_handleClick r px py s) = focusIndex s"
  "control_at (modal_handleClick r px py s) = control_at s"
  "onEscape (modal_handleClick r px py s) = onEscape s"
  by (simp_all add: modal_handleClick_def Let_def modal_close_def closeModal_frame
      modal_call_frame split: option.splits)

lemma dispatched_effect:
  assumes "dispatched r res s = Inr s'"
  shows "controls s' = controls s \<and> focusIndex s' = focusIndex s \<and> modals s' = modals s \<and>
         (\<forall>q. q \<noteq> r \<longrightarrow> control_at s' q = control_at s q) \<and>
         (\<exists>evs. trace s' = trace s @ evs \<and> only_calls_of_control r evs)"
  using assms
  by (auto simp: dispatched_def only_calls_of_control_def list_all_iff
      split: option.splits sum.splits)

lemma focusNext_inv: "focus_inv s \<Longrightarrow> focus_inv (focusNext s)"
  by (auto simp: focus_inv_def focusNext_def js_rem_nonneg split: if_splits)

lemma focusPrevious_inv: "focus_inv s \<Longrightarrow> focus_inv (focusPrevious s)"
  by (auto simp: focus_inv_def focusPrevious_def js_rem_nonneg split: if_splits)

lemma addControl_inv: "focus_inv s \<Longrightarrow> focus_inv (addControl r s)"
  by (auto simp: focus_inv_def addControl_def Let_def split: if_splits)

lemma removeControl_inv:
  assumes "focus_inv s"
  shows "focus_inv (removeControl r s)"
proof (cases "r \<in> set (controls s)")
  case False
  then show ?thesis using assms by (simp add: removeControl_def Let_def indexOf_present)
next
  case True
  then have ne: "controls s \<noteq> []" by auto
  have len: "int (length (remove1 r (controls s))) = int (length (controls s)) - 1"
    using True by (rule length_remove1_int)
  from assms ne have f: "0 \<le> focusIndex s" "focusIndex s \<le> int (length (controls s)) - 1"
    by (simp_all add: focus_inv_def)
  have c: "controls (removeControl r s) = remove1 r (controls s)"
    by (rule removeControl_controls)
  have fi: "focusIndex (removeControl r s) =
        (if focusIndex s \<ge> int (length (remove1 r (controls s)))
         then int (length (remove1 r (controls s))) - 1 else focusIndex s)"
    using True by (simp add: removeControl_def Let_def indexOf_present splice1_indexOf)
  show ?thesis
  proof (cases "remove1 r (controls s) = []")
    case True
    then show ?thesis using f len by (simp add: focus_inv_def c fi)
  next
    case False
    then have "0 < int (length (remove1 r (controls s)))" by simp
    then show ?thesis using False f len by (simp add: focus_inv_def c fi)
  qed
qed

lemma handleClick_inv:
  assumes "focus_inv s" "handleClick px py s = Inr s'"
  shows "focus_inv s'"
proof (cases "length (modals s) > 0")
  case True
  with assms(2) have "s' = modal_handleClick (last (modals s)) px py s"
    by (simp add: handleClick_def)
  with assms(1) show ?thesis
    by (simp add: focus_inv_def modal_handleClick_frame(1,2) split: if_splits)
next
  case False
  let ?f = "find (\<lambda>i. control_containsPoint (control_at s (controls s ! i)) px py)
                (rev [0..<length (controls s)])"
  show ?thesis
  proof (cases ?f)
    case None
    with False assms show ?thesis by (simp add: handleClick_def)
  next
    case (Some i)
    then have i: "i < length (controls s)" by (rule find_rev_upt_less)
    from False Some assms(2) have
      "dispatched (controls s ! i)
         (control_handleClick (control_at s (controls s ! i)) px py)
         (s\<lparr>focusIndex := int i\<rparr>) = Inr s'"
      by (simp add: handleClick_def Let_def)
    from dispatched_effect[OF this] i show ?thesis
      by (auto simp: focus_inv_def)
  qed
qed

text \<open>
  Claim C4: the focus-index invariant (the index is \<open>-1\<close> when the control list is
  empty and lies in \<open>[0, len - 1]\<close> otherwise) holds for a new coordinator and is
  preserved by \<^verbatim>\<open>addControl\<close>, \<^verbatim>\<open>removeControl\<close>, \<^verbatim>\<open>focusNext\<close>,
  \<^verbatim>\<open>focusPrevious\<close> and by the dispatch of a click.
\<close>

theorem focus_index_invariant:
  "focus_inv (CanvasUIMark_new cs ms) \<and>
   (focus_inv s \<longrightarrow>
      focus_inv (addControl r s) \<and> focus_inv (removeControl r s) \<and>
      focus_inv (focusNext s) \<and> focus_inv (focusPrevious s) \<and>
      (\<forall>s'. handleClick px py s = Inr s' \<longrightarrow> focus_inv s'))"
proof (intro conjI impI allI)
  show "focus_inv (CanvasUIMark_new cs ms)"
    by (simp add: focus_inv_def CanvasUIMark_new_def)
next
  assume "focus_inv s"
  then show "focus_inv (addControl r s)" by (rule addControl_inv)
next
  assume "focus_inv s"
  then show "focus_inv (removeControl r s)" by (rule removeControl_inv)
next
  assume "focus_inv s"
  then show "focus_inv (focusNext s)" by (rule focusNext_inv)
next
  assume "focus_inv s"
  then show "focus_inv (focusPrevious s)" by (rule focusPrevious_inv)
next
  fix s'
  assume "focus_inv s" "handleClick px py s = Inr s'"
  then show "focus_inv s'" by (rule handleClick_inv)
qed

theorem focus_index_invariant_witness:
  "focus_inv example_ui \<and>
   focus_inv (addControl 2 example_ui) \<and>
   focus_inv (removeControl 0 example_ui) \<and>
   focusIndex (removeControl 1 (removeControl 0 example_ui)) = -1 \<and>
   focus_inv (removeControl 1 (removeControl 0 example_ui)) \<and>
   focus_inv (focusNext example_ui) \<and>
   focus_inv (focusPrevious example_ui) \<and>
   (\<exists>s'. handleClick 75 25 example_ui = Inr s' \<and> focus_inv s')"
proof -
  have h: "focus_inv example_ui" by code_simp
  note inv = focus_index_invariant[of example_controls example_modals]
  from inv[of example_ui 2 75 25] h
  have all: "focus_inv (addControl 2 example_ui) \<and>
      focus_inv (focusNext example_ui) \<and> focus_inv (focusPrevious example_ui) \<and>
      (\<forall>s'. handleClick 75 25 example_ui = Inr s' \<longrightarrow> focus_inv s')"
    by blast
  then have a: "focus_inv (addControl 2 example_ui)"
    and n: "focus_inv (focusNext example_ui)" and p: "focus_inv (focusPrevious example_ui)"
    and c: "\<forall>s'. handleClick 75 25 example_ui = Inr s' \<longrightarrow> focus_inv s'"
    by simp_all
  from inv[of example_ui 0 75 25] h
  have r: "focus_inv (removeControl 0 example_ui)" by blast
  from inv[of "removeControl 0 example_ui" 1 75 25] r
  have r2: "focus_inv (removeControl 1 (removeControl 0 example_ui))" by blast
  have e: "focusIndex (removeControl 1 (removeControl 0 example_ui)) = -1" by code_simp
  have "case handleClick 75 25 example_ui of Inr s' \<Rightarrow> True | Inl err \<Rightarrow> False" by code_simp
  then obtain s' where "handleClick 75 25 example_ui = Inr s'"
    by (cases "handleClick 75 25 example_ui") simp_all
  with c have "\<exists>s'. handleClick 75 25 example_ui = Inr s' \<and> focus_inv s'" by blast
  with h a r r2 e n p show ?thesis by blast
qed

subsection \<open>Coordinator: focus navigation\<close>

lemma focusNext_step:
  assumes "controls s \<noteq> []" "0 \<le> focusIndex s"
  shows "focusNext s = s\<lparr>focusIndex := (focusIndex s + 1) mod int (length (controls s))\<rparr>"
proof -
  have "js_rem (focusIndex s + 1) (int (length (controls s))) =
        (focusIndex s + 1) mod int (length (controls s))"
    using assms by (intro js_rem_nonneg) simp_all
  then show ?thesis using assms(1) by (simp add: focusNext_def)
qed

lemma focusNext_funpow:
  assumes "controls s \<noteq> []" "0 \<le> focusIndex s" "focusIndex s < int (length (controls s))"
  shows "(focusNext ^^ k) s =
         s\<lparr>focusIndex := (focusIndex s + int k) mod int (length (controls s))\<rparr>"
proof (induction k)
  case 0
  show ?case using assms by simp
next
  case (Suc k)
  let ?n = "int (length (controls s))"
  let ?t = "s\<lparr>focusIndex := (focusIndex s + int k) mod ?n\<rparr>"
  have n: "0 < ?n" using assms(1) by simp
  have t: "controls ?t \<noteq> []" "0 \<le> focusIndex ?t" using assms(1) n by simp_all
  have "(focusNext ^^ Suc k) s = focusNext ?t" by (simp only: funpow.simps o_apply Suc)
  also have "\<dots> = ?t\<lparr>focusIndex := (focusIndex ?t + 1) mod int (length (controls ?t))\<rparr>"
    using t by (rule focusNext_step)
  also have "\<dots> = s\<lparr>focusIndex := (focusIndex s + int (Suc k)) mod ?n\<rparr>"
  proof -
    have "((focusIndex s + int k) mod ?n + 1) mod ?n = (focusIndex s + int k + 1) mod ?n"
      by (rule mod_add_left_eq)
    moreover have "focusIndex s + int k + 1 = focusIndex s + int (Suc k)" by simp
    ultimately have "((focusIndex s + int k) mod ?n + 1) mod ?n = (focusIndex s + int (Suc k)) mod ?n"
      by (simp only:)
    then show ?thesis by simp
  qed
  finally show ?case .
qed

text \<open>
  Claim C5: in a coordinator with \<open>n > 0\<close> controls and a focus index in
  \<open>[0, n - 1]\<close>, \<open>n\<close> applications of \<^verbatim>\<open>focusNext\<close> bring the focus index back to its
  starting value (and leave the rest of the state as it was).
\<close>

theorem focusNext_full_cycle:
  assumes "controls s \<noteq> []"
    and "0 \<le> focusIndex s" and "focusIndex s \<le> int (length (controls s)) - 1"
  shows "focusIndex ((focusNext ^^ length (controls s)) s) = focusIndex s \<and>
         (focusNext ^^ length (controls s)) s = s"
proof -
  have lt: "focusIndex s < int (length (controls s))" using assms(3) by simp
  have "(focusNext ^^ length (controls s)) s =
         s\<lparr>focusIndex := (focusIndex s + int (length (controls s))) mod int (length (controls s))\<rparr>"
    using assms(1,2) lt by (rule focusNext_funpow)
  moreover have "(focusIndex s + int (length (controls s))) mod int (length (controls s)) = focusIndex s"
    using assms(2) lt by simp
  ultimately show ?thesis by simp
qed

theorem focusNext_full_cycle_witness:
  "controls example_ui \<noteq> [] \<and> 0 \<le> focusIndex example_ui \<and>
   focusIndex example_ui \<le> int (length (controls example_ui)) - 1 \<and>
   length (controls example_ui) = 2 \<and>
   focusIndex (focusNext example_ui) = 1 \<and>
   focusIndex ((focusNext ^^ length (controls example_ui)) example_ui) = focusIndex example_ui"
proof -
  have h1: "controls example_ui \<noteq> []" by code_simp
  have h2: "0 \<le> focusIndex example_ui" by code_simp
  have h3: "focusIndex example_ui \<le> int (length (controls example_ui)) - 1" by code_simp
  have l: "length (controls example_ui) = 2" by code_simp
  have f: "focusIndex (focusNext example_ui) = 1" by code_simp
  from focusNext_full_cycle[OF h1 h2 h3] h1 h2 h3 l f show ?thesis by blast
qed

text \<open>
  The scenario of the specification: two controls registered, focus index 0; Tab moves
  the focus to 1, Shift+Tab moves it back to 0, and Tab wraps around from 1 to 0.
\<close>

lemma tab_scenario:
  "focusIndex example_ui = 0 \<and>
   (case handleKeyDown (plain_key ''Tab'') example_ui of
      Inl err \<Rightarrow> False
    | Inr s1 \<Rightarrow>
        focusIndex s1 = 1 \<and>
        (case handleKeyDown ((plain_key ''Tab'')\<lparr>shiftKey := True\<rparr>) s1 of
           Inl err \<Rightarrow> False | Inr s2 \<Rightarrow> focusIndex s2 = 0) \<and>
        (case handleKeyDown (plain_key ''Tab'') s1 of
           Inl err \<Rightarrow> False | Inr s2 \<Rightarrow> focusIndex s2 = 0))"
  by code_simp

text \<open>
  Claim C6: in a coordinator with no controls, \<^verbatim>\<open>focusNext\<close> and \<^verbatim>\<open>focusPrevious\<close>
  return the state unchanged, so a focus index of \<open>-1\<close> stays \<open>-1\<close>. Neither function
  has a failing branch: the guard on the empty list comes before the remainder by the
  length, the one operation that could yield \<^verbatim>\<open>NaN\<close>.
\<close>

theorem focus_navigation_on_empty:
  assumes "controls s = []"
  shows "focusNext s = s \<and> focusPrevious s = s \<and>
         (focusIndex s = -1 \<longrightarrow>
            focusIndex (focusNext s) = -1 \<and> focusIndex (focusPrevious s) = -1)"
  using assms by (simp add: focusNext_def focusPrevious_def)

theorem focus_navigation_on_empty_witness:
  "controls (CanvasUIMark_new example_controls example_modals) = [] \<and>
   focusIndex (CanvasUIMark_new example_controls example_modals) = -1 \<and>
   focusNext (CanvasUIMark_new example_controls example_modals)
     = CanvasUIMark_new example_controls example_modals \<and>
   focusPrevious (CanvasUIMark_new example_controls example_modals)
     = CanvasUIMark_new example_controls example_modals \<and>
   focusIndex (focusNext (CanvasUIMark_new example_controls example_modals)) = -1 \<and>
   focusIndex (focusPrevious (CanvasUIMark_new example_controls example_modals)) = -1"
proof -
  let ?s = "CanvasUIMark_new example_controls example_modals"
  have h: "controls ?s = []" by (simp add: CanvasUIMark_new_def)
  have i: "focusIndex ?s = -1" by (simp add: CanvasUIMark_new_def)
  from focus_navigation_on_empty[OF h] h i show ?thesis by blast
qed

subsection \<open>Coordinator: click dispatch\<close>





subsection \<open>Modal: exclusive input\<close>

lemma only_calls_of_modal_simps:
  "only_calls_of_modal r []" "only_calls_of_modal r [ModalCall r f]"
  by (simp_all add: only_calls_of_modal_def)

lemma closeModal_trace_ext:
  "\<exists>evs. trace s' = trace s @ evs \<and> only_calls_of_modal r evs \<Longrightarrow>
   \<exists>evs. trace (closeModal q s') = trace s @ evs \<and> only_calls_of_modal r evs"
  by (simp add: closeModal_frame)

lemma modal_call_trace:
  "\<exists>evs. trace (modal_call r b s) = trace s @ evs \<and> only_calls_of_modal r evs"
proof (cases "modal_button.callback b")
  case None
  then show ?thesis
    using only_calls_of_modal_simps(1) by (simp add: modal_call_def)
next
  case (Some cb)
  show ?thesis
  proof (cases cb)
    case (AppCallback f)
    with Some have "trace (modal_call r b s) = trace s @ [ModalCall r f]"
      by (simp add: modal_call_def)
    then show ?thesis using only_calls_of_modal_simps(2) by blast
  next
    case (CloseClosure r')
    with Some have "trace (modal_call r b s) = trace s @ []"
      by (simp add: modal_call_def modal_close_def closeModal_frame)
    then show ?thesis using only_calls_of_modal_simps(1) by blast
  qed
qed

lemma modal_frame_refl: "modal_frame r s s"
  using only_calls_of_modal_simps(1) by (simp add: modal_frame_def)

lemma modal_frame_close_call: "modal_frame r s (modal_close q (modal_call r b s))"
  using modal_call_trace[of r b s]
  by (simp add: modal_frame_def modal_close_def closeModal_frame modal_call_frame)

lemma modal_frame_close: "modal_frame r s (modal_close q s)"
  using only_calls_of_modal_simps(1)
  by (simp add: modal_frame_def modal_close_def closeModal_frame)

lemma modal_select_frame: "modal_select r res s = Inr s' \<Longrightarrow> modal_frame r s s'"
  using only_calls_of_modal_simps(1)
  by (auto simp: modal_select_def modal_frame_def split: sum.splits)

lemma modal_activate_selected_frame:
  "modal_activate_selected r s = Inr s' \<Longrightarrow> modal_frame r s s'"
  using modal_frame_close_call
  by (auto simp: modal_activate_selected_def split: option.splits)

lemma modal_exit_frame: "modal_frame r s (modal_exit r s)"
  using modal_frame_close_call modal_frame_close
  by (simp add: modal_exit_def split: option.splits)

lemma modal_handleKeyDown_frame:
  "modal_handleKeyDown r e s = Inr s' \<Longrightarrow> modal_frame r s s'"
  using modal_select_frame modal_activate_selected_frame modal_exit_frame modal_frame_refl
  by (auto simp: modal_handleKeyDown_def Let_def split: if_splits)

lemma modal_handleGamepadButton_frame:
  "modal_handleGamepadButton r b s = Inr s' \<Longrightarrow> modal_frame r s s'"
  using modal_select_frame modal_activate_selected_frame modal_exit_frame modal_frame_refl
  by (auto simp: modal_handleGamepadButton_def Let_def split: if_splits)

lemma modal_handleClick_modal_frame: "modal_frame r s (modal_handleClick r px py s)"
  using modal_frame_close_call modal_frame_refl
  by (simp add: modal_handleClick_def Let_def split: option.splits)

lemma modal_frame_keys: "modal_frame r (s\<lparr>keys := k\<rparr>) s' \<Longrightarrow> modal_frame r s s'"
  by (simp add: modal_frame_def)

lemma modal_ok_steps:
  assumes "modal_ok m"
  shows "\<exists>i. step_back (selectedButton m) (length (buttons m)) = Inr i"
    and "\<exists>i. step_forth (selectedButton m) (length (buttons m)) = Inr i"
    and "\<exists>b. element_at (buttons m) (selectedButton m) = Some b"
  using assms by (simp_all add: modal_ok_def step_back_def step_forth_def element_at_def)

lemma modal_handleKeyDown_total:
  assumes "modal_ok (modal_at s r)"
  shows "\<exists>s'. modal_handleKeyDown r e s = Inr s'"
  using modal_ok_steps[OF assms]
  by (auto simp: modal_handleKeyDown_def Let_def modal_select_def modal_activate_selected_def)

lemma modal_handleGamepadButton_total:
  assumes "modal_ok (modal_at s r)"
  shows "\<exists>s'. modal_handleGamepadButton r b s = Inr s'"
  using modal_ok_steps[OF assms]
  by (auto simp: modal_handleGamepadButton_def Let_def modal_select_def
      modal_activate_selected_def)

lemma handleKeyDown_modal:
  "modals s \<noteq> [] \<Longrightarrow>
   handleKeyDown e s =
     modal_handleKeyDown (last (modals s)) e (s\<lparr>keys := AList.update (key e) True (keys s)\<rparr>)"
  by (simp add: handleKeyDown_def Let_def)

lemma handleClick_modal:
  "modals s \<noteq> [] \<Longrightarrow> handleClick px py s = Inr (modal_handleClick (last (modals s)) px py s)"
  by (simp add: handleClick_def)

lemma handleGamepadButton_modal:
  "modals s \<noteq> [] \<Longrightarrow>
   handleGamepadButton b s = modal_handleGamepadButton (last (modals s)) b s"
  by (simp add: handleGamepadButton_def)

text \<open>
  Claim C1: while the modal stack is not empty, a key event, a click and a gamepad
  button are handled by the topmost modal's handler and by nothing else, whatever the
  focus index: the coordinator's handlers are the modal's handlers (on the state with
  the key recorded as held); when they return, the control list, the focus index, every
  control object and the Escape callback are as before and the trace has grown only by
  callbacks of that modal's actions, so no control handler and no \<^verbatim>\<open>onEscape\<close> call
  took place. For a modal with a non-empty action list and a selected index within it,
  the handlers return.
\<close>

theorem modal_owns_input:
  assumes "modals s \<noteq> []"
  shows "handleKeyDown e s =
           modal_handleKeyDown (last (modals s)) e
             (s\<lparr>keys := AList.update (key e) True (keys s)\<rparr>) \<and>
         handleClick px py s = Inr (modal_handleClick (last (modals s)) px py s) \<and>
         handleGamepadButton b s = modal_handleGamepadButton (last (modals s)) b s \<and>
         (\<forall>s'. handleKeyDown e s = Inr s' \<or> handleClick px py s = Inr s' \<or>
               handleGamepadButton b s = Inr s' \<longrightarrow>
            controls s' = controls s \<and> focusIndex s' = focusIndex s \<and>
            control_at s' = control_at s \<and> onEscape s' = onEscape s \<and>
            (\<exists>evs. trace s' = trace s @ evs \<and> only_calls_of_modal (last (modals s)) evs)) \<and>
         (modal_ok (modal_at s (last (modals s))) \<longrightarrow>
            (\<exists>s'. handleKeyDown e s = Inr s') \<and> (\<exists>s'. handleGamepadButton b s = Inr s'))"
proof -
  let ?r = "last (modals s)"
  let ?s1 = "s\<lparr>keys := AList.update (key e) True (keys s)\<rparr>"
  have k: "handleKeyDown e s = modal_handleKeyDown ?r e ?s1"
    using assms by (rule handleKeyDown_modal)
  have c: "handleClick px py s = Inr (modal_handleClick ?r px py s)"
    using assms by (rule handleClick_modal)
  have g: "handleGamepadButton b s = modal_handleGamepadButton ?r b s"
    using assms by (rule handleGamepadButton_modal)
  have fr: "modal_frame ?r s s'"
    if "handleKeyDown e s = Inr s' \<or> handleClick px py s = Inr s' \<or>
        handleGamepadButton b s = Inr s'" for s'
    using that
  proof (elim disjE)
    assume "handleKeyDown e s = Inr s'"
    with k have "modal_handleKeyDown ?r e ?s1 = Inr s'" by simp
    then have "modal_frame ?r ?s1 s'" by (rule modal_handleKeyDown_frame)
    then show ?thesis by (rule modal_frame_keys)
  next
    assume "handleClick px py s = Inr s'"
    with c have "s' = modal_handleClick ?r px py s" by simp
    then show ?thesis by (simp add: modal_handleClick_modal_frame)
  next
    assume "handleGamepadButton b s = Inr s'"
    with g have "modal_handleGamepadButton ?r b s = Inr s'" by simp
    then show ?thesis by (rule modal_handleGamepadButton_frame)
  qed
  have tot: "(\<exists>s'. handleKeyDown e s = Inr s') \<and> (\<exists>s'. handleGamepadButton b s = Inr s')"
    if ok: "modal_ok (modal_at s ?r)"
  proof -
    have "modal_ok (modal_at ?s1 ?r)" using ok by simp
    from modal_handleKeyDown_total[OF this, of e] k
    have "\<exists>s'. handleKeyDown e s = Inr s'" by simp
    moreover from modal_handleGamepadButton_total[OF ok, of b] g
    have "\<exists>s'. handleGamepadButton b s = Inr s'" by simp
    ultimately show ?thesis by blast
  qed
  from k c g fr tot show ?thesis unfolding modal_frame_def by blast
qed

theorem modal_owns_input_witness:
  "modals example_pause_ui \<noteq> [] \<and> onEscape example_pause_ui = Some 9 \<and>
   focusIndex example_pause_ui = 0 \<and>
   (\<exists>s'. handleKeyDown (plain_key ''Escape'') example_pause_ui = Inr s' \<and>
      trace s' = [ModalCall 0 7] \<and> modals s' = [] \<and>
      focusIndex s' = 0 \<and> control_at s' = control_at example_pause_ui) \<and>
   (\<exists>s'. handleKeyDown (plain_key ''Enter'') example_pause_ui = Inr s' \<and>
      trace s' = [] \<and> modals s' = [] \<and>
      focusIndex s' = 0 \<and> control_at s' = control_at example_pause_ui) \<and>
   (\<exists>s'. handleClick 75 25 example_pause_ui = Inr s' \<and>
      trace s' = [] \<and> modals s' = [0] \<and>
      focusIndex s' = 0 \<and> control_at s' = control_at example_pause_ui) \<and>
   (\<exists>s'. handleGamepadButton 1 example_pause_ui = Inr s' \<and>
      trace s' = [ModalCall 0 7] \<and> modals s' = [] \<and>
      focusIndex s' = 0 \<and> control_at s' = control_at example_pause_ui)"
proof -
  let ?s = example_pause_ui
  have m: "modals ?s \<noteq> []" by code_simp
  have o: "onEscape ?s = Some 9" by code_simp
  have f: "focusIndex ?s = 0" by code_simp
  have "case handleKeyDown (plain_key ''Escape'') ?s of
          Inr s' \<Rightarrow> trace s' = [ModalCall 0 7] \<and> modals s' = [] | Inl err \<Rightarrow> False"
    by code_simp
  then obtain s1 where k1: "handleKeyDown (plain_key ''Escape'') ?s = Inr s1"
    and t1: "trace s1 = [ModalCall 0 7]" "modals s1 = []"
    by (cases "handleKeyDown (plain_key ''Escape'') ?s") simp_all
  have "case handleKeyDown (plain_key ''Enter'') ?s of
          Inr s' \<Rightarrow> trace s' = [] \<and> modals s' = [] | Inl err \<Rightarrow> False"
    by code_simp
  then obtain s2 where k2: "handleKeyDown (plain_key ''Enter'') ?s = Inr s2"
    and t2: "trace s2 = []" "modals s2 = []"
    by (cases "handleKeyDown (plain_key ''Enter'') ?s") simp_all
  have "case handleClick 75 25 ?s of
          Inr s' \<Rightarrow> trace s' = [] \<and> modals s' = [0] | Inl err \<Rightarrow> False"
    by code_simp
  then obtain s3 where k3: "handleClick 75 25 ?s = Inr s3"
    and t3: "trace s3 = []" "modals s3 = [0]"
    by (cases "handleClick 75 25 ?s") simp_all
  have "case handleGamepadButton 1 ?s of
          Inr s' \<Rightarrow> trace s' = [ModalCall 0 7] \<and> modals s' = [] | Inl err \<Rightarrow> False"
    by code_simp
  then obtain s4 where k4: "handleGamepadButton 1 ?s = Inr s4"
    and t4: "trace s4 = [ModalCall 0 7]" "modals s4 = []"
    by (cases "handleGamepadButton 1 ?s") simp_all
  from modal_owns_input[OF m, of "plain_key ''Escape''" 75 25 1] k1
  have f1: "focusIndex s1 = focusIndex ?s \<and> control_at s1 = control_at ?s" by blast
  from modal_owns_input[OF m, of "plain_key ''Enter''" 75 25 1] k2
  have f2: "focusIndex s2 = focusIndex ?s \<and> control_at s2 = control_at ?s" by blast
  from modal_owns_input[OF m, of "plain_key ''Enter''" 75 25 1] k3
  have f3: "focusIndex s3 = focusIndex ?s \<and> control_at s3 = control_at ?s" by blast
  from modal_owns_input[OF m, of "plain_key ''Enter''" 75 25 1] k4
  have f4: "focusIndex s4 = focusIndex ?s \<and> control_at s4 = control_at ?s" by blast
  from m o f k1 t1 f1 k2 t2 f2 k3 t3 f3 k4 t4 f4 show ?thesis by (simp add: f)
qed

subsection \<open>Modal: Escape\<close>

lemma find_first:
  assumes "i < length xs" "P (xs ! i)" "\<forall>j<i. \<not> P (xs ! j)"
  shows "find P xs = Some (xs ! i)"
  using assms by (simp add: find_Some_iff) blast

lemma find_none: "(\<forall>b\<in>set xs. \<not> P b) \<Longrightarrow> find P xs = None"
  by (simp add: find_None_iff)

lemma closeModal_absent: "r \<notin> set (modals s) \<Longrightarrow> closeModal r s = s"
  by (simp add: closeModal_def Let_def indexOf_present)

lemma closeModal_removed: "distinct (modals s) \<Longrightarrow> r \<notin> set (modals (closeModal r s))"
  by (simp add: closeModal_modals)

lemma closeModal_distinct: "distinct (modals s) \<Longrightarrow> distinct (modals (closeModal r s))"
  by (simp add: closeModal_modals)

lemma modal_call_modals:
  "modals (modal_call r b s) =
     (case modal_button.callback b of
        Some (CloseClosure r') \<Rightarrow> remove1 r' (modals s)
      | _ \<Rightarrow> modals s)"
  by (simp add: modal_call_def modal_close_def closeModal_modals
      split: option.splits modal_callback.splits)

lemma modal_call_distinct: "distinct (modals s) \<Longrightarrow> distinct (modals (modal_call r b s))"
  by (simp add: modal_call_modals split: option.splits modal_callback.splits)

text \<open>
  Claim C8: on Escape a modal looks for the first action whose label, lower-cased, is
  \<open>exit\<close>, \<open>close\<close> or \<open>cancel\<close>. The handler always returns and the modal is removed
  from the stack. If no action matches, no callback is called. If an action matches,
  the callback of the first such action is called (once, and no other), when it has
  one; for the library's own closure \<^verbatim>\<open>() => this.close()\<close> that call is a close and
  leaves no trace.
\<close>

theorem modal_escape_runs_exit_action:
  assumes "key e = ''Escape''"
  shows "\<exists>s'. modal_handleKeyDown r e s = Inr s' \<and>
           (distinct (modals s) \<longrightarrow> r \<notin> set (modals s')) \<and>
           ((\<forall>b\<in>set (buttons (modal_at s r)). \<not> is_exit_button b) \<longrightarrow>
              trace s' = trace s \<and> modals s' = remove1 r (modals s)) \<and>
           (\<forall>i. i < length (buttons (modal_at s r)) \<and>
                 is_exit_button (buttons (modal_at s r) ! i) \<and>
                 (\<forall>j<i. \<not> is_exit_button (buttons (modal_at s r) ! j)) \<longrightarrow>
              (case modal_button.callback (buttons (modal_at s r) ! i) of
                 None \<Rightarrow> trace s' = trace s \<and> modals s' = remove1 r (modals s)
               | Some (AppCallback f) \<Rightarrow>
                   trace s' = trace s @ [ModalCall r f] \<and> modals s' = remove1 r (modals s)
               | Some (CloseClosure r') \<Rightarrow>
                   trace s' = trace s \<and> modals s' = remove1 r (remove1 r' (modals s))))"
proof -
  let ?bs = "buttons (modal_at s r)"
  have not_arrow: "key e \<noteq> ''ArrowLeft''" "key e \<noteq> ''ArrowRight''" "key e \<noteq> ''Enter''"
    "key e \<noteq> '' ''"
    using assms by simp_all
  have r: "modal_handleKeyDown r e s = Inr (modal_exit r s)"
    using assms not_arrow by (simp add: modal_handleKeyDown_def Let_def)
  have closed: "r \<notin> set (modals (modal_exit r s))" if "distinct (modals s)"
    using that closeModal_removed[of s r] closeModal_removed[OF modal_call_distinct[OF that], of r r]
    by (simp add: modal_exit_def modal_close_def split: option.splits)
  have none: "trace (modal_exit r s) = trace s \<and> modals (modal_exit r s) = remove1 r (modals s)"
    if "\<forall>b\<in>set ?bs. \<not> is_exit_button b"
    using find_none[OF that]
    by (simp add: modal_exit_def modal_close_def closeModal_frame closeModal_modals)
  have some: "case modal_button.callback (?bs ! i) of
                 None \<Rightarrow> trace (modal_exit r s) = trace s \<and>
                   modals (modal_exit r s) = remove1 r (modals s)
               | Some (AppCallback f) \<Rightarrow>
                   trace (modal_exit r s) = trace s @ [ModalCall r f] \<and>
                   modals (modal_exit r s) = remove1 r (modals s)
               | Some (CloseClosure r') \<Rightarrow>
                   trace (modal_exit r s) = trace s \<and>
                   modals (modal_exit r s) = remove1 r (remove1 r' (modals s))"
    if "i < length ?bs \<and> is_exit_button (?bs ! i) \<and> (\<forall>j<i. \<not> is_exit_button (?bs ! j))" for i
  proof -
    from that have "find is_exit_button ?bs = Some (?bs ! i)"
      by (intro find_first) simp_all
    then have x: "modal_exit r s = modal_close r (modal_call r (?bs ! i) s)"
      by (simp add: modal_exit_def)
    show ?thesis unfolding x
      by (simp add: modal_close_def closeModal_frame closeModal_modals modal_call_def
          split: option.splits modal_callback.splits)
  qed
  from r closed none some show ?thesis by blast
qed

theorem modal_escape_runs_exit_action_witness:
  "key (plain_key ''Escape'') = ''Escape'' \<and> distinct (modals example_pause_ui) \<and>
   \<not> is_exit_button (buttons (modal_at example_pause_ui 0) ! 0) \<and>
   is_exit_button (buttons (modal_at example_pause_ui 0) ! 1) \<and>
   (\<exists>s'. modal_handleKeyDown 0 (plain_key ''Escape'') example_pause_ui = Inr s' \<and>
      trace s' = trace example_pause_ui @ [ModalCall 0 7] \<and>
      modals s' = remove1 0 (modals example_pause_ui) \<and> 0 \<notin> set (modals s')) \<and>
   \<not> is_exit_button (buttons (modal_at example_confirm_ui 0) ! 0) \<and>
   \<not> is_exit_button (buttons (modal_at example_confirm_ui 0) ! 1) \<and>
   (\<exists>s'. modal_handleKeyDown 0 (plain_key ''Escape'') example_confirm_ui = Inr s' \<and>
      trace s' = trace example_confirm_ui \<and>
      modals s' = remove1 0 (modals example_confirm_ui) \<and> 0 \<notin> set (modals s'))"
proof -
  let ?e = "plain_key ''Escape''"
  let ?p = example_pause_ui and ?c = example_confirm_ui
  have h: "key ?e = ''Escape''" by (simp add: plain_key_def)
  have dp: "distinct (modals ?p)" by code_simp
  have dc: "distinct (modals ?c)" by code_simp
  have lp: "length (buttons (modal_at ?p 0)) = 2" by code_simp
  have p0: "\<not> is_exit_button (buttons (modal_at ?p 0) ! 0)" by code_simp
  have p1: "is_exit_button (buttons (modal_at ?p 0) ! 1)" by code_simp
  have cb: "modal_button.callback (buttons (modal_at ?p 0) ! 1) = Some (AppCallback 7)"
    by code_simp
  have first: "1 < length (buttons (modal_at ?p 0)) \<and>
     is_exit_button (buttons (modal_at ?p 0) ! 1) \<and>
     (\<forall>j<1. \<not> is_exit_button (buttons (modal_at ?p 0) ! j))"
    using lp p0 p1 by simp
  from modal_escape_runs_exit_action[OF h, of 0 ?p] obtain s1 where
    r1: "modal_handleKeyDown 0 ?e ?p = Inr s1" and
    c1: "distinct (modals ?p) \<longrightarrow> 0 \<notin> set (modals s1)" and
    a1: "\<forall>i. i < length (buttons (modal_at ?p 0)) \<and>
                 is_exit_button (buttons (modal_at ?p 0) ! i) \<and>
                 (\<forall>j<i. \<not> is_exit_button (buttons (modal_at ?p 0) ! j)) \<longrightarrow>
              (case modal_button.callback (buttons (modal_at ?p 0) ! i) of
                 None \<Rightarrow> trace s1 = trace ?p \<and> modals s1 = remove1 0 (modals ?p)
               | Some (AppCallback f) \<Rightarrow>
                   trace s1 = trace ?p @ [ModalCall 0 f] \<and> modals s1 = remove1 0 (modals ?p)
               | Some (CloseClosure r') \<Rightarrow>
                   trace s1 = trace ?p \<and> modals s1 = remove1 0 (remove1 r' (modals ?p)))"
    by blast
  from a1 first have
    "case modal_button.callback (buttons (modal_at ?p 0) ! 1) of
                 None \<Rightarrow> trace s1 = trace ?p \<and> modals s1 = remove1 0 (modals ?p)
               | Some (AppCallback f) \<Rightarrow>
                   trace s1 = trace ?p @ [ModalCall 0 f] \<and> modals s1 = remove1 0 (modals ?p)
               | Some (CloseClosure r') \<Rightarrow>
                   trace s1 = trace ?p \<and> modals s1 = remove1 0 (remove1 r' (modals ?p))"
    by blast
  then have e1: "trace s1 = trace ?p @ [ModalCall 0 7] \<and> modals s1 = remove1 0 (modals ?p)"
    unfolding cb by simp
  from c1 dp have g1: "0 \<notin> set (modals s1)" by blast
  have lc: "length (buttons (modal_at ?c 0)) = 2" by code_simp
  have c0: "\<not> is_exit_button (buttons (modal_at ?c 0) ! 0)" by code_simp
  have c1': "\<not> is_exit_button (buttons (modal_at ?c 0) ! 1)" by code_simp
  have "\<forall>j<length (buttons (modal_at ?c 0)). \<not> is_exit_button (buttons (modal_at ?c 0) ! j)"
    using c0 c1' by (simp add: lc less_2_cases_iff)
  then have nonec: "\<forall>b\<in>set (buttons (modal_at ?c 0)). \<not> is_exit_button b"
    by (auto simp: in_set_conv_nth)
  from modal_escape_runs_exit_action[OF h, of 0 ?c] nonec dc obtain s2 where
    r2: "modal_handleKeyDown 0 ?e ?c = Inr s2" and
    e2: "trace s2 = trace ?c \<and> modals s2 = remove1 0 (modals ?c)" and
    g2: "0 \<notin> set (modals s2)"
    by blast
  from h dp p0 p1 r1 e1 g1 c0 c1' r2 e2 g2 show ?thesis by blast
qed

text \<open>
  The test on the label is equality up to the case of the letters \<open>A\<close> to \<open>Z\<close>.
\<close>

lemma lower_char_eq_iff:
  assumes "(97::nat) \<le> of_char d" "of_char d \<le> (122::nat)"
  shows "lower_char c = d \<longleftrightarrow> same_letter c d"
proof (cases "(65::nat) \<le> of_char c \<and> of_char c \<le> (90::nat)")
  case True
  then have lt: "of_char c + (32::nat) < 256" by simp
  have "char_of (of_char c + (32::nat)) = d \<longleftrightarrow> of_char c + (32::nat) = of_char d"
  proof
    assume "char_of (of_char c + (32::nat)) = d"
    then have "of_char (char_of (of_char c + (32::nat))) = (of_char d :: nat)" by simp
    with lt show "of_char c + (32::nat) = of_char d" by (simp add: of_char_of)
  next
    assume "of_char c + (32::nat) = of_char d"
    then have "char_of (of_char c + (32::nat)) = char_of (of_char d :: nat)" by simp
    then show "char_of (of_char c + (32::nat)) = d" by simp
  qed
  with True assms show ?thesis
    by (auto simp: lower_char_def same_letter_def)
next
  case False
  with assms show ?thesis
    by (auto simp: lower_char_def same_letter_def)
qed

lemma toLowerCase_eq_iff:
  assumes "\<forall>d\<in>set w. (97::nat) \<le> of_char d \<and> of_char d \<le> (122::nat)"
  shows "toLowerCase l = w \<longleftrightarrow> equal_ignoring_case l w"
  using assms
proof (induction l arbitrary: w)
  case Nil
  then show ?case by (auto simp: toLowerCase_def equal_ignoring_case_def)
next
  case (Cons c l)
  show ?case
  proof (cases w)
    case Nil
    then show ?thesis by (simp add: toLowerCase_def equal_ignoring_case_def)
  next
    case (Cons d w')
    with Cons.prems have d: "(97::nat) \<le> of_char d" "of_char d \<le> (122::nat)"
      and w': "\<forall>d\<in>set w'. (97::nat) \<le> of_char d \<and> of_char d \<le> (122::nat)"
      by simp_all
    from Cons.IH[OF w'] lower_char_eq_iff[OF d, of c] Cons show ?thesis
      by (simp add: toLowerCase_def equal_ignoring_case_def)
  qed
qed

lemma is_exit_button_iff:
  "is_exit_button b \<longleftrightarrow>
     equal_ignoring_case (modal_button.label b) ''exit'' \<or>
     equal_ignoring_case (modal_button.label b) ''close'' \<or>
     equal_ignoring_case (modal_button.label b) ''cancel''"
proof -
  have "toLowerCase l = ''exit'' \<longleftrightarrow> equal_ignoring_case l ''exit''" for l
    by (rule toLowerCase_eq_iff) simp
  moreover have "toLowerCase l = ''close'' \<longleftrightarrow> equal_ignoring_case l ''close''" for l
    by (rule toLowerCase_eq_iff) simp
  moreover have "toLowerCase l = ''cancel'' \<longleftrightarrow> equal_ignoring_case l ''cancel''" for l
    by (rule toLowerCase_eq_iff) simp
  ultimately show ?thesis by (simp add: is_exit_button_def)
qed

lemma is_exit_button_examples:
  "is_exit_button \<lparr>modal_button.label = ''Exit'', modal_button.callback = None\<rparr>"
  "is_exit_button \<lparr>modal_button.label = ''CANCEL'', modal_button.callback = None\<rparr>"
  "is_exit_button \<lparr>modal_button.label = ''cLoSe'', modal_button.callback = None\<rparr>"
  "\<not> is_exit_button \<lparr>modal_button.label = ''Resume'', modal_button.callback = None\<rparr>"
  "\<not> is_exit_button \<lparr>modal_button.label = ''OK'', modal_button.callback = None\<rparr>"
  "\<not> is_exit_button \<lparr>modal_button.label = ''Exit '', modal_button.callback = None\<rparr>"
  by code_simp+

subsection \<open>Modal: closing twice\<close>

lemma closeModal_twice:
  assumes "distinct (modals s)"
  shows "closeModal r (closeModal r s) = closeModal r s"
  using closeModal_removed[OF assms, of r] by (rule closeModal_absent)

lemma default_ok_activate:
  assumes "distinct (modals s)"
    and "buttons (modal_at s r) =
         [\<lparr>modal_button.label = ''OK'', modal_button.callback = Some (CloseClosure r)\<rparr>]"
    and "selectedButton (modal_at s r) = 0"
  shows "modal_activate_selected r s = Inr (closeModal r s)"
  using assms(2,3) closeModal_twice[OF assms(1), of r]
  by (simp add: modal_activate_selected_def element_at_def modal_call_def modal_close_def)

text \<open>
  Claim C9: \<^verbatim>\<open>closeModal\<close> changes nothing when the modal is not on the stack, so on
  a stack without duplicates (which is what \<^verbatim>\<open>showModal\<close> builds) closing a second time
  changes nothing. In particular, for a modal with the default OK action, whose
  callback closes the modal before the handler closes it again, Enter, Space, gamepad
  button 0 and a click on the button return without error the state of a single
  \<^verbatim>\<open>closeModal\<close>.
\<close>

theorem closeModal_idempotent:
  "(r \<notin> set (modals s) \<longrightarrow> closeModal r s = s) \<and>
   modals (closeModal r s) = remove1 r (modals s) \<and>
   (distinct (modals s) \<longrightarrow>
      closeModal r (closeModal r s) = closeModal r s \<and>
      modal_close r (modal_close r s) = modal_close r s \<and>
      (buttons (modal_at s r) =
         [\<lparr>modal_button.label = ''OK'', modal_button.callback = Some (CloseClosure r)\<rparr>] \<and>
       selectedButton (modal_at s r) = 0 \<longrightarrow>
         modal_handleKeyDown r (plain_key ''Enter'') s = Inr (closeModal r s) \<and>
         modal_handleKeyDown r (plain_key '' '') s = Inr (closeModal r s) \<and>
         modal_handleGamepadButton r 0 s = Inr (closeModal r s) \<and>
         (modal_button_hit (modal_at s r) px py 0 \<longrightarrow>
            modal_handleClick r px py s = closeModal r s)))"
proof -
  have a: "closeModal r s = s" if "r \<notin> set (modals s)"
    using that by (rule closeModal_absent)
  have b: "modals (closeModal r s) = remove1 r (modals s)" by (rule closeModal_modals)
  have c: "closeModal r (closeModal r s) = closeModal r s" if "distinct (modals s)"
    using that by (rule closeModal_twice)
  have d: "modal_handleKeyDown r (plain_key ''Enter'') s = Inr (closeModal r s) \<and>
         modal_handleKeyDown r (plain_key '' '') s = Inr (closeModal r s) \<and>
         modal_handleGamepadButton r 0 s = Inr (closeModal r s) \<and>
         (modal_button_hit (modal_at s r) px py 0 \<longrightarrow>
            modal_handleClick r px py s = closeModal r s)"
    if dist: "distinct (modals s)"
      and ok: "buttons (modal_at s r) =
         [\<lparr>modal_button.label = ''OK'', modal_button.callback = Some (CloseClosure r)\<rparr>] \<and>
       selectedButton (modal_at s r) = 0"
  proof -
    have act: "modal_activate_selected r s = Inr (closeModal r s)"
      using dist ok by (intro default_ok_activate) simp_all
    have clk: "modal_handleClick r px py s = closeModal r s"
      if "modal_button_hit (modal_at s r) px py 0"
      using ok that c[OF dist]
      by (simp add: modal_handleClick_def Let_def modal_call_def modal_close_def)
    from act clk show ?thesis
      by (simp add: modal_handleKeyDown_def modal_handleGamepadButton_def Let_def plain_key_def)
  qed
  from a b c d show ?thesis by (simp add: modal_close_def)
qed

theorem closeModal_idempotent_witness:
  "modals example_ui = [] \<and> modals example_alert_ui = [0] \<and>
   distinct (modals example_alert_ui) \<and>
   buttons (modal_at example_alert_ui 0) =
     [\<lparr>modal_button.label = ''OK'', modal_button.callback = Some (CloseClosure 0)\<rparr>] \<and>
   selectedButton (modal_at example_alert_ui 0) = 0 \<and>
   modal_handleKeyDown 0 (plain_key ''Enter'') example_alert_ui
     = Inr (closeModal 0 example_alert_ui) \<and>
   modals (closeModal 0 example_alert_ui) = [] \<and>
   trace (closeModal 0 example_alert_ui) = [] \<and>
   closeModal 0 (closeModal 0 example_alert_ui) = closeModal 0 example_alert_ui \<and>
   closeModal 5 example_alert_ui = example_alert_ui"
proof -
  let ?s = example_alert_ui
  have m0: "modals example_ui = []" by code_simp
  have m: "modals ?s = [0]" by code_simp
  have d: "distinct (modals ?s)" by (simp add: m)
  have b: "buttons (modal_at ?s 0) =
     [\<lparr>modal_button.label = ''OK'', modal_button.callback = Some (CloseClosure 0)\<rparr>]"
    by code_simp
  have sel: "selectedButton (modal_at ?s 0) = 0" by code_simp
  have n5: "5 \<notin> set (modals ?s)" by (simp add: m)
  have t: "trace (closeModal 0 ?s) = []" by code_simp
  from closeModal_idempotent[of 0 ?s] d b sel
  have k: "modal_handleKeyDown 0 (plain_key ''Enter'') ?s = Inr (closeModal 0 ?s)"
    and i: "closeModal 0 (closeModal 0 ?s) = closeModal 0 ?s"
    and r: "modals (closeModal 0 ?s) = remove1 0 (modals ?s)"
    by blast+
  from closeModal_idempotent[of 5 ?s] n5 have a: "closeModal 5 ?s = ?s" by blast
  from r have e: "modals (closeModal 0 ?s) = []" by (simp add: m)
  from m0 m d b sel k e t i a show ?thesis by blast
qed

text \<open>
  From a state that satisfies the invariant of the modal stack: opening a modal with no
  action given and pressing Enter returns, with the stack and the trace as they were
  before the modal was opened.
\<close>

lemma default_modal_opens_and_closes:
  assumes "modal_stack_inv s"
  shows "\<exists>s2. handleKeyDown (plain_key ''Enter'')
                 (snd (showModal ttl msg [] dims canvas s)) = Inr s2 \<and>
              modals s2 = modals s \<and> trace s2 = trace s"
proof -
  let ?r = "next_modal s"
  let ?s1 = "snd (showModal ttl msg [] dims canvas s)"
  let ?s1k = "?s1\<lparr>keys := AList.update (key (plain_key ''Enter'')) True (keys ?s1)\<rparr>"
  from assms have d: "distinct (modals s)"
    and a: "\<forall>r\<in>set (modals s). r < next_modal s"
    by (simp_all add: modal_stack_inv_def list_all_iff)
  from a have fresh: "?r \<notin> set (modals s)" by auto
  have m1: "modals ?s1k = modals s @ [?r]" by (simp add: showModal_def Let_def)
  have t1: "trace ?s1k = trace s" by (simp add: showModal_def Let_def)
  have d1: "distinct (modals ?s1k)" using d fresh by (simp add: m1)
  have b1: "buttons (modal_at ?s1k ?r) =
         [\<lparr>modal_button.label = ''OK'', modal_button.callback = Some (CloseClosure ?r)\<rparr>]"
    by (simp add: showModal_def Let_def Modal_new_def)
  have s1: "selectedButton (modal_at ?s1k ?r) = 0"
    by (simp add: showModal_def Let_def Modal_new_def)
  have ne: "modals ?s1 \<noteq> []" and lst: "last (modals ?s1) = ?r"
    by (simp_all add: showModal_def Let_def)
  have "handleKeyDown (plain_key ''Enter'') ?s1 = modal_handleKeyDown ?r (plain_key ''Enter'') ?s1k"
    using handleKeyDown_modal[OF ne, of "plain_key ''Enter''"] by (simp only: lst)
  also have "\<dots> = modal_activate_selected ?r ?s1k"
    by (simp add: modal_handleKeyDown_def Let_def plain_key_def)
  also have "\<dots> = Inr (closeModal ?r ?s1k)"
    using d1 b1 s1 by (rule default_ok_activate)
  finally have k: "handleKeyDown (plain_key ''Enter'') ?s1 = Inr (closeModal ?r ?s1k)" .
  have "modals (closeModal ?r ?s1k) = remove1 ?r (modals s @ [?r])"
    by (simp only: closeModal_modals m1)
  also have "\<dots> = modals s" using fresh by (simp add: remove1_append)
  finally have m2: "modals (closeModal ?r ?s1k) = modals s" .
  have t2: "trace (closeModal ?r ?s1k) = trace s" by (simp only: closeModal_frame t1)
  from k m2 t2 show ?thesis by blast
qed

subsection \<open>Invariants of the reachable states\<close>

text \<open>
  The hypotheses of the properties above (a focus index within the control list, a
  modal stack without duplicates, modals with a selected action) hold in every state an
  application can reach.
\<close>

lemma focus_inv_same:
  "controls s' = controls s \<Longrightarrow> focusIndex s' = focusIndex s \<Longrightarrow> focus_inv s' = focus_inv s"
  by (simp add: focus_inv_def)

lemma modal_stack_inv_same:
  assumes "modal_stack_inv s" "modals s' = modals s" "modal_at s' = modal_at s"
    "next_modal s' = next_modal s"
  shows "modal_stack_inv s'"
  using assms by (simp add: modal_stack_inv_def)

lemma closeModal_stack_inv: "modal_stack_inv s \<Longrightarrow> modal_stack_inv (closeModal q s)"
  by (auto simp: modal_stack_inv_def closeModal_modals closeModal_frame list_all_iff
      dest: notin_set_remove1)

lemma modal_call_stack_inv: "modal_stack_inv s \<Longrightarrow> modal_stack_inv (modal_call r b s)"
proof (cases "modal_button.callback b")
  case None
  assume "modal_stack_inv s"
  with None show ?thesis by (simp add: modal_call_def)
next
  case (Some cb)
  assume inv: "modal_stack_inv s"
  show ?thesis
  proof (cases cb)
    case (AppCallback f)
    with Some inv show ?thesis by (simp add: modal_call_def modal_stack_inv_def)
  next
    case (CloseClosure r')
    with Some closeModal_stack_inv[OF inv, of r'] show ?thesis
      by (simp add: modal_call_def modal_close_def)
  qed
qed

lemma step_in_range:
  assumes "0 \<le> i" "i < int n"
  shows "\<exists>j. step_back i n = Inr j \<and> 0 \<le> j \<and> j < int n"
    and "\<exists>j. step_forth i n = Inr j \<and> 0 \<le> j \<and> j < int n"
proof -
  have n: "0 < int n" "n \<noteq> 0" using assms by auto
  have "js_rem (i - 1 + int n) (int n) = (i - 1 + int n) mod int n"
    using assms n by (intro js_rem_nonneg) simp_all
  with n show "\<exists>j. step_back i n = Inr j \<and> 0 \<le> j \<and> j < int n"
    by (simp add: step_back_def)
  have "js_rem (i + 1) (int n) = (i + 1) mod int n"
    using assms n by (intro js_rem_nonneg) simp_all
  with n show "\<exists>j. step_forth i n = Inr j \<and> 0 \<le> j \<and> j < int n"
    by (simp add: step_forth_def)
qed

lemma modal_select_stack_inv:
  assumes "modal_stack_inv s" "modal_select r res s = Inr s'"
    "\<And>i. res = Inr i \<Longrightarrow> r \<in> set (modals s) \<Longrightarrow>
        0 \<le> i \<and> i < int (length (buttons (modal_at s r)))"
  shows "modal_stack_inv s'"
proof -
  from assms(2) obtain i where res: "res = Inr i"
    and s': "s' = s\<lparr>modal_at := (modal_at s)(r := (modal_at s r)\<lparr>selectedButton := i\<rparr>)\<rparr>"
    by (auto simp: modal_select_def split: sum.splits)
  have "modal_ok (modal_at s' q)" if q: "q \<in> set (modals s)" "modal_ok (modal_at s q)" for q
  proof (cases "q = r")
    case True
    with assms(3)[OF res] q show ?thesis by (simp add: s' modal_ok_def)
  next
    case False
    with q show ?thesis by (simp add: s')
  qed
  with assms(1) show ?thesis by (auto simp: modal_stack_inv_def list_all_iff s')
qed

lemma modal_stack_inv_ok:
  "modal_stack_inv s \<Longrightarrow> r \<in> set (modals s) \<Longrightarrow> modal_ok (modal_at s r)"
  by (simp add: modal_stack_inv_def list_all_iff)

lemma modal_step_back_stack_inv:
  assumes "modal_stack_inv s"
    "modal_select r (step_back (selectedButton (modal_at s r)) (length (buttons (modal_at s r)))) s
       = Inr s'"
  shows "modal_stack_inv s'"
proof (rule modal_select_stack_inv[OF assms])
  fix i
  assume i: "step_back (selectedButton (modal_at s r)) (length (buttons (modal_at s r))) = Inr i"
    and "r \<in> set (modals s)"
  with assms(1) have "modal_ok (modal_at s r)" by (simp add: modal_stack_inv_ok)
  then have "0 \<le> selectedButton (modal_at s r)"
    "selectedButton (modal_at s r) < int (length (buttons (modal_at s r)))"
    by (simp_all add: modal_ok_def)
  from step_in_range(1)[OF this] i
  show "0 \<le> i \<and> i < int (length (buttons (modal_at s r)))" by simp
qed

lemma modal_step_forth_stack_inv:
  assumes "modal_stack_inv s"
    "modal_select r (step_forth (selectedButton (modal_at s r)) (length (buttons (modal_at s r)))) s
       = Inr s'"
  shows "modal_stack_inv s'"
proof (rule modal_select_stack_inv[OF assms])
  fix i
  assume i: "step_forth (selectedButton (modal_at s r)) (length (buttons (modal_at s r))) = Inr i"
    and "r \<in> set (modals s)"
  with assms(1) have "modal_ok (modal_at s r)" by (simp add: modal_stack_inv_ok)
  then have "0 \<le> selectedButton (modal_at s r)"
    "selectedButton (modal_at s r) < int (length (buttons (modal_at s r)))"
    by (simp_all add: modal_ok_def)
  from step_in_range(2)[OF this] i
  show "0 \<le> i \<and> i < int (length (buttons (modal_at s r)))" by simp
qed

lemma modal_close_call_stack_inv:
  "modal_stack_inv s \<Longrightarrow> modal_stack_inv (modal_close q (modal_call r b s))"
  by (simp add: modal_close_def closeModal_stack_inv modal_call_stack_inv)

lemma modal_activate_selected_stack_inv:
  "modal_stack_inv s \<Longrightarrow> modal_activate_selected r s = Inr s' \<Longrightarrow> modal_stack_inv s'"
  using modal_close_call_stack_inv
  by (auto simp: modal_activate_selected_def split: option.splits)

lemma modal_exit_stack_inv: "modal_stack_inv s \<Longrightarrow> modal_stack_inv (modal_exit r s)"
  using modal_close_call_stack_inv closeModal_stack_inv
  by (simp add: modal_exit_def modal_close_def split: option.splits)

lemma modal_handleKeyDown_stack_inv:
  assumes "modal_stack_inv s" "modal_handleKeyDown r e s = Inr s'"
  shows "modal_stack_inv s'"
  using assms modal_step_back_stack_inv[OF assms(1), of r s']
    modal_step_forth_stack_inv[OF assms(1), of r s']
    modal_activate_selected_stack_inv[OF assms(1), of r s'] modal_exit_stack_inv[OF assms(1), of r]
  by (auto simp: modal_handleKeyDown_def Let_def split: if_splits)

lemma modal_handleGamepadButton_stack_inv:
  assumes "modal_stack_inv s" "modal_handleGamepadButton r b s = Inr s'"
  shows "modal_stack_inv s'"
  using assms modal_step_back_stack_inv[OF assms(1), of r s']
    modal_step_forth_stack_inv[OF assms(1), of r s']
    modal_activate_selected_stack_inv[OF assms(1), of r s'] modal_exit_stack_inv[OF assms(1), of r]
  by (auto simp: modal_handleGamepadButton_def Let_def split: if_splits)

lemma modal_handleClick_stack_inv:
  "modal_stack_inv s \<Longrightarrow> modal_stack_inv (modal_handleClick r px py s)"
  using modal_close_call_stack_inv
  by (simp add: modal_handleClick_def Let_def split: option.splits)

lemma dispatched_modals:
  assumes "dispatched r res s = Inr s'"
  shows "modals s' = modals s" "modal_at s' = modal_at s" "next_modal s' = next_modal s"
  using assms by (auto simp: dispatched_def split: option.splits sum.splits)

lemma dispatched_stack_inv:
  "modal_stack_inv s \<Longrightarrow> dispatched r res s = Inr s' \<Longrightarrow> modal_stack_inv s'"
  using dispatched_modals[of r res s s'] by (simp add: modal_stack_inv_def)

lemma dispatched_focus_inv:
  "focus_inv s \<Longrightarrow> dispatched r res s = Inr s' \<Longrightarrow> focus_inv s'"
  using dispatched_effect[of r res s s'] focus_inv_same[of s' s] by simp

lemma focus_moves_stack_inv:
  "modal_stack_inv s \<Longrightarrow> modal_stack_inv (focusNext s)"
  "modal_stack_inv s \<Longrightarrow> modal_stack_inv (focusPrevious s)"
  "modal_stack_inv s \<Longrightarrow> modal_stack_inv (addControl r s)"
  "modal_stack_inv s \<Longrightarrow> modal_stack_inv (removeControl r s)"
  by (simp_all add: modal_stack_inv_def focusNext_def focusPrevious_def addControl_def
      removeControl_def Let_def)

lemma Modal_new_ok: "modal_ok (Modal_new r ttl msg bs dims canvas)"
  by (simp add: modal_ok_def Modal_new_def)

lemma showModal_stack_inv:
  assumes "modal_stack_inv s"
  shows "modal_stack_inv (snd (showModal ttl msg bs dims canvas s))"
proof -
  from assms have d: "distinct (modals s)"
    and a: "\<forall>r\<in>set (modals s). r < next_modal s \<and> modal_ok (modal_at s r)"
    by (simp_all add: modal_stack_inv_def list_all_iff)
  from a have fresh: "next_modal s \<notin> set (modals s)" by auto
  from d a fresh show ?thesis
    by (auto simp: showModal_def Let_def modal_stack_inv_def list_all_iff Modal_new_ok)
qed

lemma modal_frame_focus_inv: "focus_inv s \<Longrightarrow> modal_frame r s s' \<Longrightarrow> focus_inv s'"
  using focus_inv_same[of s' s] by (simp add: modal_frame_def)

lemma handleKeyDown_invs:
  assumes "focus_inv s" "modal_stack_inv s" "handleKeyDown e s = Inr s'"
  shows "focus_inv s' \<and> modal_stack_inv s'"
proof -
  let ?s1 = "s\<lparr>keys := AList.update (key e) True (keys s)\<rparr>"
  have f1: "focus_inv ?s1" using assms(1) focus_inv_same[of ?s1 s] by simp
  have m1: "modal_stack_inv ?s1" using assms(2) by (simp add: modal_stack_inv_def)
  show ?thesis
  proof (cases "modals s = []")
    case False
    with assms(3) have k: "modal_handleKeyDown (last (modals s)) e ?s1 = Inr s'"
      by (simp add: handleKeyDown_modal)
    from modal_handleKeyDown_frame[OF k] f1 have "focus_inv s'"
      by (rule modal_frame_focus_inv[rotated])
    moreover from m1 k have "modal_stack_inv s'" by (rule modal_handleKeyDown_stack_inv)
    ultimately show ?thesis by simp
  next
    case True
    show ?thesis
    proof (cases "key e = ''Escape''")
      case True
      with \<open>modals s = []\<close> assms(3)
      have "controls s' = controls s \<and> focusIndex s' = focusIndex s \<and>
          modals s' = modals s \<and> modal_at s' = modal_at s \<and> next_modal s' = next_modal s"
        by (auto simp: handleKeyDown_def Let_def split: option.splits)
      with assms(1,2) show ?thesis
        using focus_inv_same[of s' s] modal_stack_inv_same[of s s'] by simp
    next
      case False
      show ?thesis
      proof (cases "key e = ''Tab''")
        case True
        with False \<open>modals s = []\<close> assms(3)
        have "s' = focusPrevious ?s1 \<or> s' = focusNext ?s1"
          by (auto simp: handleKeyDown_def Let_def split: if_splits)
        with f1 m1 show ?thesis
          using focusNext_inv focusPrevious_inv focus_moves_stack_inv(1,2) by blast
      next
        case nt: False
        show ?thesis
        proof (cases "focused ?s1")
          case None
          with False nt \<open>modals s = []\<close> assms(3) f1 m1 show ?thesis
            by (simp add: handleKeyDown_def Let_def)
        next
          case (Some r)
          with False nt \<open>modals s = []\<close> assms(3)
          have "dispatched r (control_handleKeyDown (control_at ?s1 r) e) ?s1 = Inr s'"
            by (simp add: handleKeyDown_def Let_def)
          with f1 m1 show ?thesis
            using dispatched_focus_inv dispatched_stack_inv by blast
        qed
      qed
    qed
  qed
qed

lemma handleClick_stack_inv:
  assumes "modal_stack_inv s" "handleClick px py s = Inr s'"
  shows "modal_stack_inv s'"
proof (cases "modals s = []")
  case False
  with assms(2) have "s' = modal_handleClick (last (modals s)) px py s"
    by (simp add: handleClick_modal)
  with assms(1) show ?thesis by (simp add: modal_handleClick_stack_inv)
next
  case True
  let ?f = "find (\<lambda>i. control_containsPoint (control_at s (controls s ! i)) px py)
                (rev [0..<length (controls s)])"
  show ?thesis
  proof (cases ?f)
    case None
    with True assms show ?thesis by (simp add: handleClick_def)
  next
    case (Some i)
    with True assms(2) have
      "dispatched (controls s ! i)
         (control_handleClick (control_at s (controls s ! i)) px py)
         (s\<lparr>focusIndex := int i\<rparr>) = Inr s'"
      by (simp add: handleClick_def Let_def)
    moreover have "modal_stack_inv (s\<lparr>focusIndex := int i\<rparr>)"
      using assms(1) by (simp add: modal_stack_inv_def)
    ultimately show ?thesis using dispatched_stack_inv by blast
  qed
qed

lemma gamepad_adjust_invs:
  assumes "focus_inv s" "modal_stack_inv s" "gamepad_adjust d s = Inr s'"
  shows "focus_inv s' \<and> modal_stack_inv s'"
proof (cases "focused s")
  case None
  with assms show ?thesis by (simp add: gamepad_adjust_def)
next
  case (Some r)
  with assms(3) obtain res where "dispatched r res s = Inr s'"
    by (auto simp: gamepad_adjust_def split: option.splits)
  with assms(1,2) show ?thesis
    using dispatched_focus_inv dispatched_stack_inv by blast
qed

lemma handleGamepadButton_invs:
  assumes "focus_inv s" "modal_stack_inv s" "handleGamepadButton b s = Inr s'"
  shows "focus_inv s' \<and> modal_stack_inv s'"
proof (cases "modals s = []")
  case False
  with assms(3) have k: "modal_handleGamepadButton (last (modals s)) b s = Inr s'"
    by (simp add: handleGamepadButton_modal)
  from modal_handleGamepadButton_frame[OF k] assms(1) have "focus_inv s'"
    by (rule modal_frame_focus_inv[rotated])
  moreover from assms(2) k have "modal_stack_inv s'"
    by (rule modal_handleGamepadButton_stack_inv)
  ultimately show ?thesis by simp
next
  case True
  consider "b = 0" | "b = 1" | "b = 12" | "b = 13" | "b = 14" | "b = 15"
    | "b \<notin> {0, 1, 12, 13, 14, 15}" by auto
  then show ?thesis
  proof cases
    case 1
    show ?thesis
    proof (cases "focused s")
      case None
      with 1 True assms show ?thesis by (simp add: handleGamepadButton_def)
    next
      case (Some r)
      with 1 True assms(3) have "dispatched r (control_activate (control_at s r)) s = Inr s'"
        by (simp add: handleGamepadButton_def)
      with assms(1,2) show ?thesis
        using dispatched_focus_inv dispatched_stack_inv by blast
    qed
  next
    case 2
    with True assms(3)
    have "controls s' = controls s \<and> focusIndex s' = focusIndex s \<and>
        modals s' = modals s \<and> modal_at s' = modal_at s \<and> next_modal s' = next_modal s"
      by (auto simp: handleGamepadButton_def split: option.splits)
    with assms(1,2) show ?thesis
      using focus_inv_same[of s' s] modal_stack_inv_same[of s s'] by simp
  next
    case 3
    with True assms(3) have "s' = focusPrevious s" by (simp add: handleGamepadButton_def)
    with assms(1,2) show ?thesis by (simp add: focusPrevious_inv focus_moves_stack_inv)
  next
    case 4
    with True assms(3) have "s' = focusNext s" by (simp add: handleGamepadButton_def)
    with assms(1,2) show ?thesis by (simp add: focusNext_inv focus_moves_stack_inv)
  next
    case 5
    with True assms(3) have "gamepad_adjust (-1) s = Inr s'"
      by (simp add: handleGamepadButton_def)
    with assms(1,2) show ?thesis by (rule gamepad_adjust_invs)
  next
    case 6
    with True assms(3) have "gamepad_adjust 1 s = Inr s'"
      by (simp add: handleGamepadButton_def)
    with assms(1,2) show ?thesis by (rule gamepad_adjust_invs)
  next
    case 7
    with True assms show ?thesis by (simp add: handleGamepadButton_def)
  qed
qed

lemma reachable_invariants: "reachable s \<Longrightarrow> focus_inv s \<and> modal_stack_inv s"
proof (induction rule: reachable.induct)
  case (constructed cs ms)
  show ?case by (simp add: focus_inv_def modal_stack_inv_def CanvasUIMark_new_def)
next
  case (onEscape_set s f)
  then show ?case
    using focus_inv_same[of "s\<lparr>onEscape := f\<rparr>" s] by (simp add: modal_stack_inv_def)
next
  case (control_object s r c)
  then show ?case
    using focus_inv_same[of "s\<lparr>control_at := (control_at s)(r := c)\<rparr>" s]
    by (simp add: modal_stack_inv_def)
next
  case (control_added s r)
  then show ?case by (simp add: addControl_inv focus_moves_stack_inv)
next
  case (control_removed s r)
  then show ?case by (simp add: removeControl_inv focus_moves_stack_inv)
next
  case (focus_next s)
  then show ?case by (simp add: focusNext_inv focus_moves_stack_inv)
next
  case (focus_previous s)
  then show ?case by (simp add: focusPrevious_inv focus_moves_stack_inv)
next
  case (modal_shown s ttl msg bs dims canvas)
  then have "modal_stack_inv (snd (showModal ttl msg bs dims canvas s))"
    by (simp add: showModal_stack_inv)
  moreover from modal_shown have "focus_inv (snd (showModal ttl msg bs dims canvas s))"
    using focus_inv_same[of "snd (showModal ttl msg bs dims canvas s)" s]
    by (simp add: showModal_def Let_def)
  ultimately show ?case by simp
next
  case (modal_closed s r)
  then show ?case
    using focus_inv_same[of "closeModal r s" s]
    by (simp add: closeModal_stack_inv closeModal_frame)
next
  case (key_down s e s')
  then show ?case using handleKeyDown_invs by blast
next
  case (click s px py s')
  then show ?case using handleClick_inv handleClick_stack_inv by blast
next
  case (gamepad_button s b s')
  then show ?case using handleGamepadButton_invs by blast
qed

lemma reachable_modals_distinct: "reachable s \<Longrightarrow> distinct (modals s)"
  using reachable_invariants[of s] by (simp add: modal_stack_inv_def)

lemma reachable_top_modal_ok:
  "reachable s \<Longrightarrow> modals s \<noteq> [] \<Longrightarrow> modal_ok (modal_at s (last (modals s)))"
  using reachable_invariants[of s] by (simp add: modal_stack_inv_def list_all_iff)

end
